theory Spec2Isabelle
  imports Complex_Main
begin

section \<open>Python values, exceptions and statements\<close>

text \<open>
  The exceptions that \<^verbatim>\<open>regression/maml.py\<close> can raise by itself. A statement either
  completes or raises; in both cases the objects it has already mutated keep their new
  contents, so a raise carries the state at the point of the raise.
\<close>

datatype error =
    AssertionError
  | KeyError string
  | IndexError
  | UnboundLocalError string
  | ZeroDivisionError
  | TypeError
  | NotImplementedError

datatype 's result = Ok 's | Raise error 's

definition and_then :: "'s result \<Rightarrow> ('s \<Rightarrow> 's result) \<Rightarrow> 's result" where
  "and_then r f = (case r of Ok s \<Rightarrow> f s | Raise e s \<Rightarrow> Raise e s)"

definition state_of :: "'s result \<Rightarrow> 's" where
  "state_of r = (case r of Ok s \<Rightarrow> s | Raise e s \<Rightarrow> s)"

definition raised :: "'s result \<Rightarrow> error option" where
  "raised r = (case r of Ok s \<Rightarrow> None | Raise e s \<Rightarrow> Some e)"

text \<open>\<^verbatim>\<open>xs[k]\<close> for a non-negative index: out of range raises IndexError.\<close>

definition getitem :: "'a list \<Rightarrow> nat \<Rightarrow> error + 'a" where
  "getitem xs k = (if k < length xs then Inr (xs ! k) else Inl IndexError)"

text \<open>
  Reading a local variable of the function. The loop variables \<^verbatim>\<open>i\<close> and \<^verbatim>\<open>j\<close> are
  function-level locals in Python: a \<^verbatim>\<open>for\<close> over an empty range leaves its variable as
  it was, and reading a local that was never assigned raises UnboundLocalError.
\<close>

definition load_local :: "string \<Rightarrow> nat option \<Rightarrow> error + nat" where
  "load_local name v = (case v of None \<Rightarrow> Inl (UnboundLocalError name) | Some k \<Rightarrow> Inr k)"

definition bind_err :: "error + 'a \<Rightarrow> ('a \<Rightarrow> error + 'b) \<Rightarrow> error + 'b" where
  "bind_err m f = (case m of Inl e \<Rightarrow> Inl e | Inr v \<Rightarrow> f v)"

text \<open>
  An assignment statement: the right-hand side is evaluated first; if it raises, the state
  is left as it is, otherwise the store is performed.
\<close>

definition assign :: "error + 'a \<Rightarrow> ('a \<Rightarrow> 's) \<Rightarrow> 's \<Rightarrow> 's result" where
  "assign rhs store s = (case rhs of Inl e \<Rightarrow> Raise e s | Inr v \<Rightarrow> Ok (store v))"

text \<open>
  \<^verbatim>\<open>for k in range(...): body\<close>. The body given here starts by binding the loop
  variable, as the \<^verbatim>\<open>for\<close> statement does before each pass.
\<close>

fun for_range :: "(nat \<Rightarrow> 's \<Rightarrow> 's result) \<Rightarrow> nat list \<Rightarrow> 's \<Rightarrow> 's result" where
  "for_range body [] s = Ok s"
| "for_range body (k # ks) s = and_then (body k s) (for_range body ks)"

text \<open>\<^verbatim>\<open>for _ in range(n): body\<close>.\<close>

fun repeat :: "nat \<Rightarrow> ('s \<Rightarrow> 's result) \<Rightarrow> 's \<Rightarrow> 's result" where
  "repeat 0 body s = Ok s"
| "repeat (Suc n) body s = and_then (body s) (repeat n body)"

section \<open>Tensors\<close>

text \<open>
  A tensor is the list of its entries, over the reals (the floating point rounding of the
  entries is not modelled). The operations the program uses are entrywise; the operands
  of \<^verbatim>\<open>-\<close> and \<^verbatim>\<open>+=\<close> are a parameter and its own gradient, which have the same shape.
\<close>

type_synonym tensor = "real list"

definition tsub :: "tensor \<Rightarrow> tensor \<Rightarrow> tensor" where
  "tsub a b = map2 (-) a b"

definition tadd :: "tensor \<Rightarrow> tensor \<Rightarrow> tensor" where
  "tadd a b = map2 (+) a b"

definition smul :: "real \<Rightarrow> tensor \<Rightarrow> tensor" where
  "smul c g = map ((*) c) g"

definition sdiv :: "tensor \<Rightarrow> nat \<Rightarrow> tensor" where
  "sdiv g n = map (\<lambda>x. x / real n) g"

definition tclone :: "tensor \<Rightarrow> tensor" where
  "tclone w = w"

text \<open>\<^verbatim>\<open>F.mse_loss(outputs, targets)\<close>: the mean of the squared differences.\<close>

definition mse_loss :: "tensor \<Rightarrow> tensor \<Rightarrow> real" where
  "mse_loss outputs targets =
     sum_list (map (\<lambda>(p, q). (p - q)\<^sup>2) (zip outputs targets)) / real (length outputs)"

text \<open>
  The values of a parameter set, in the form the model's forward pass reads them.
  \<^verbatim>\<open>MamlModel\<close> is imported from the package and its forward pass is not part of this
  file, so the forward pass is a parameter \<open>fwd\<close> of every definition below: a function
  of the parameter values and the input batch.
\<close>

record parameter_set =
  weight_values :: "tensor list"
  bias_values :: "tensor list"
  context_value :: tensor

type_synonym forward = "parameter_set \<Rightarrow> tensor \<Rightarrow> tensor"

text \<open>
  \<^verbatim>\<open>torch.autograd.grad(loss, params)\<close> differentiates a scalar with respect to the
  tensors listed in \<^verbatim>\<open>params\<close>. The scalar is given as a function of the values of those
  tensors (in the order of the list); \<open>D loss v k\<close> is the component of the gradient for
  the \<open>k\<close>-th listed tensor, at the values \<open>v\<close>. The returned tuple has one component per
  listed tensor.
\<close>

type_synonym autograd = "(tensor list \<Rightarrow> real) \<Rightarrow> tensor list \<Rightarrow> nat \<Rightarrow> tensor"

definition grad_tuple :: "autograd \<Rightarrow> (tensor list \<Rightarrow> real) \<Rightarrow> tensor list \<Rightarrow> tensor list" where
  "grad_tuple D loss v = map (D loss v) [0..<length v]"

text \<open>
  The parameter set whose tensors are the listed ones, in the order
  \<^verbatim>\<open>weights + biases + [task_context]\<close> of the \<^verbatim>\<open>params\<close> list.
\<close>

definition unflatten :: "nat \<Rightarrow> nat \<Rightarrow> tensor list \<Rightarrow> parameter_set" where
  "unflatten nw nb v =
     \<lparr>weight_values = map (\<lambda>k. v ! k) [0..<nw],
      bias_values = map (\<lambda>k. v ! (nw + k)) [0..<nb],
      context_value = v ! (nw + nb)\<rparr>"

section \<open>Objects\<close>

text \<open>
  A \<^verbatim>\<open>MamlModel\<close> object has two attributes holding Python lists, \<^verbatim>\<open>weights\<close> and
  \<^verbatim>\<open>biases\<close>, and one holding a tensor, \<^verbatim>\<open>task_context\<close>. The lists are mutable objects
  (\<^verbatim>\<open>model_inner.weights[i] = ...\<close> stores into one), so an attribute holds the address
  of its list and the lists live in a store. A list comprehension allocates a new list.
  Tensors are never changed in place by this file (\<^verbatim>\<open>-\<close> and \<^verbatim>\<open>*\<close> build new tensors),
  so they are values.
\<close>

record 't maml_model =
  weights :: nat
  biases :: nat
  task_context :: 't

text \<open>
  What \<^verbatim>\<open>run\<close> and \<^verbatim>\<open>eval\<close> have in common: the store of list objects with its next
  free address, the local lists \<^verbatim>\<open>copy_weights\<close> and \<^verbatim>\<open>copy_biases\<close> (built once, only
  read afterwards), the local \<^verbatim>\<open>copy_context\<close>, and the two loop variables.
\<close>

record 't frame =
  heap :: "nat \<Rightarrow> 't list"
  next_addr :: nat
  copy_weights :: "'t list"
  copy_biases :: "'t list"
  copy_context :: 't
  var_i :: "nat option"
  var_j :: "nat option"

definition new_list :: "'t list \<Rightarrow> ('t, 'z) frame_scheme \<Rightarrow> nat \<times> ('t, 'z) frame_scheme" where
  "new_list xs s = (next_addr s, s\<lparr>heap := (heap s)(next_addr s := xs), next_addr := Suc (next_addr s)\<rparr>)"

text \<open>\<^verbatim>\<open>lst[k] = v\<close> on the list at address \<open>a\<close>.\<close>

definition setitem :: "nat \<Rightarrow> nat \<Rightarrow> 't \<Rightarrow> ('t, 'z) frame_scheme \<Rightarrow> ('t, 'z) frame_scheme result" where
  "setitem a k v s =
     (if k < length (heap s a) then Ok (s\<lparr>heap := (heap s)(a := (heap s a)[k := v])\<rparr>)
      else Raise IndexError s)"

section \<open>The evaluator's adaptation loop (\<^verbatim>\<open>eval\<close>)\<close>

record eval_state = "tensor frame" +
  model :: "tensor maml_model"

text \<open>Lines 211-213: the copies of the model's parameters.\<close>

definition eval_copy :: "eval_state \<Rightarrow> eval_state" where
  "eval_copy s =
     s\<lparr>copy_weights := map tclone (heap s (weights (model s))),
       copy_biases := map tclone (heap s (biases (model s))),
       copy_context := tclone (task_context (model s))\<rparr>"

text \<open>Lines 227-229 (and 265-267): reset the model to fresh clones of the copies.\<close>

definition eval_reset :: "eval_state \<Rightarrow> eval_state" where
  "eval_reset s =
     (let (aw, s1) = new_list (map tclone (copy_weights s)) s;
          s2 = s1\<lparr>model := (model s1)\<lparr>weights := aw\<rparr>\<rparr>;
          (ab, s3) = new_list (map tclone (copy_biases s2)) s2;
          s4 = s3\<lparr>model := (model s3)\<lparr>biases := ab\<rparr>\<rparr>
      in s4\<lparr>model := (model s4)\<lparr>task_context := tclone (copy_context s4)\<rparr>\<rparr>)"

text \<open>
  Line 254, the body of \<^verbatim>\<open>for i in range(len(model.weights))\<close>:
  \<^verbatim>\<open>model.weights[i] = model.weights[i] - config['lr_inner'] * grads[i].detach()\<close>.
\<close>

definition eval_weight_stmt :: "real \<Rightarrow> tensor list \<Rightarrow> nat \<Rightarrow> eval_state \<Rightarrow> eval_state result" where
  "eval_weight_stmt lr_inner grads i s0 =
     (let s = s0\<lparr>var_i := Some i\<rparr> in
      case bind_err (getitem (heap s (weights (model s))) i) (\<lambda>w.
           bind_err (getitem grads i) (\<lambda>g.
           Inr (tsub w (smul lr_inner g)))) of
        Inl e \<Rightarrow> Raise e s
      | Inr v \<Rightarrow> setitem (weights (model s)) i v s)"

text \<open>
  Line 256, the body of \<^verbatim>\<open>for j in range(len(model.biases))\<close>:
  \<^verbatim>\<open>model.biases[j] = model.biases[j] - config['lr_inner'] * grads[i + j + 1].detach()\<close>.
\<close>

definition eval_bias_stmt :: "real \<Rightarrow> tensor list \<Rightarrow> nat \<Rightarrow> eval_state \<Rightarrow> eval_state result" where
  "eval_bias_stmt lr_inner grads j s0 =
     (let s = s0\<lparr>var_j := Some j\<rparr> in
      case bind_err (getitem (heap s (biases (model s))) j) (\<lambda>b.
           bind_err (load_local ''i'' (var_i s)) (\<lambda>i.
           bind_err (load_local ''j'' (var_j s)) (\<lambda>j'.
           bind_err (getitem grads (i + j' + 1)) (\<lambda>g.
           Inr (tsub b (smul lr_inner g)))))) of
        Inl e \<Rightarrow> Raise e s
      | Inr v \<Rightarrow> setitem (biases (model s)) j v s)"

text \<open>
  Line 257:
  \<^verbatim>\<open>model.task_context = model.task_context - config['lr_inner'] * grads[i + j + 2].detach()\<close>.
\<close>

definition eval_context_stmt :: "real \<Rightarrow> tensor list \<Rightarrow> eval_state \<Rightarrow> eval_state result" where
  "eval_context_stmt lr_inner grads s =
     assign
       (bind_err (load_local ''i'' (var_i s)) (\<lambda>i.
        bind_err (load_local ''j'' (var_j s)) (\<lambda>j.
        bind_err (getitem grads (i + j + 2)) (\<lambda>g.
        Inr (tsub (task_context (model s)) (smul lr_inner g))))))
       (\<lambda>v. s\<lparr>model := (model s)\<lparr>task_context := v\<rparr>\<rparr>) s"

text \<open>
  Lines 242-257, one pass of \<^verbatim>\<open>for _ in range(1, num_updates + 1)\<close>: the loss of the
  model on the current inputs, its gradient with respect to the model's current tensors,
  and the three updates. (The gradient norms appended to \<^verbatim>\<open>gradnorms\<close> in line 251 do not
  influence the parameters and are left out.)
\<close>

definition eval_update :: "forward \<Rightarrow> autograd \<Rightarrow> real \<Rightarrow> tensor \<Rightarrow> tensor \<Rightarrow> eval_state \<Rightarrow> eval_state result" where
  "eval_update fwd D lr_inner curr_inputs curr_targets s =
     (let nw = length (heap s (weights (model s)));
          nb = length (heap s (biases (model s)));
          task_loss = (\<lambda>v. mse_loss (fwd (unflatten nw nb v) curr_inputs) curr_targets);
          params = heap s (weights (model s)) @ heap s (biases (model s)) @ [task_context (model s)];
          grads = grad_tuple D task_loss params
      in and_then (for_range (eval_weight_stmt lr_inner grads) [0..<length (heap s (weights (model s)))] s)
           (\<lambda>s1. and_then (for_range (eval_bias_stmt lr_inner grads) [0..<length (heap s1 (biases (model s1)))] s1)
           (eval_context_stmt lr_inner grads)))"

text \<open>
  Lines 227-257 for one task: reset, then \<open>num_updates\<close> passes of the update.
\<close>

definition eval_adapt :: "forward \<Rightarrow> autograd \<Rightarrow> real \<Rightarrow> nat \<Rightarrow> tensor \<Rightarrow> tensor \<Rightarrow> eval_state \<Rightarrow> eval_state result" where
  "eval_adapt fwd D lr_inner num_updates curr_inputs curr_targets s =
     repeat num_updates (eval_update fwd D lr_inner curr_inputs curr_targets) (eval_reset s)"

definition eval_values :: "eval_state \<Rightarrow> parameter_set" where
  "eval_values s =
     \<lparr>weight_values = heap s (weights (model s)),
      bias_values = heap s (biases (model s)),
      context_value = task_context (model s)\<rparr>"

section \<open>Tensors with a differentiation history\<close>

text \<open>
  Inside \<^verbatim>\<open>run\<close> a tensor carries the graph that produced it, because line 144
  differentiates the test loss of \<^verbatim>\<open>model_inner\<close> with respect to the tensors of
  \<^verbatim>\<open>model_outer\<close>. Such a tensor is modelled as the function that gives its value from the
  values of the leaves of the graph. The leaves are the tensors of \<^verbatim>\<open>model_outer\<close>, in
  the order \<^verbatim>\<open>weights + biases + [task_context]\<close> of lines 112 and 145; their current
  values are the field \<open>leaf_data\<close> of the state. \<^verbatim>\<open>clone\<close> keeps the history,
  \<^verbatim>\<open>detach\<close> forgets it and keeps the current value.
\<close>

type_synonym gtensor = "tensor list \<Rightarrow> tensor"

definition leaf :: "nat \<Rightarrow> gtensor" where
  "leaf k = (\<lambda>v. v ! k)"

definition clone :: "gtensor \<Rightarrow> gtensor" where
  "clone g = g"

definition detach :: "tensor list \<Rightarrow> gtensor \<Rightarrow> gtensor" where
  "detach v0 g = (\<lambda>v. g v0)"

definition gsub :: "gtensor \<Rightarrow> gtensor \<Rightarrow> gtensor" where
  "gsub a b = (\<lambda>v. tsub (a v) (b v))"

definition gscale :: "real \<Rightarrow> gtensor \<Rightarrow> gtensor" where
  "gscale c g = (\<lambda>v. smul c (g v))"

section \<open>One outer iteration of \<^verbatim>\<open>run\<close>\<close>

text \<open>The entries of \<^verbatim>\<open>config\<close> that lines 75-165 read as numbers or flags.\<close>

record config =
  lr_inner :: real
  first_order :: bool
  num_inner_updates :: nat
  tasks_per_metaupdate :: nat

text \<open>
  An entry of the list \<^verbatim>\<open>meta_gradient\<close>: line 83 fills it with the integer 0, line 147
  adds tensors to it.
\<close>

datatype cell = IntZero | Tens tensor

text \<open>
  The state of \<^verbatim>\<open>run\<close> between lines 75 and 165. \<open>weights_grad\<close>, \<open>biases_grad\<close> and
  \<open>context_grad\<close> are the \<^verbatim>\<open>.grad\<close> attributes of the tensors held by \<^verbatim>\<open>model_outer\<close>,
  slot by slot.
\<close>

record run_state = "gtensor frame" +
  leaf_data :: "tensor list"
  model_outer :: "gtensor maml_model"
  model_inner :: "gtensor maml_model"
  meta_gradient :: "cell list"
  weights_grad :: "tensor option list"
  biases_grad :: "tensor option list"
  context_grad :: "tensor option"

text \<open>The values a model's tensors take when the leaves have the values \<open>v\<close>.\<close>

definition graph_values :: "run_state \<Rightarrow> gtensor maml_model \<Rightarrow> tensor list \<Rightarrow> parameter_set" where
  "graph_values s m v =
     \<lparr>weight_values = map (\<lambda>g. g v) (heap s (weights m)),
      bias_values = map (\<lambda>g. g v) (heap s (biases m)),
      context_value = task_context m v\<rparr>"

text \<open>Lines 78-80.\<close>

definition run_copy :: "run_state \<Rightarrow> run_state" where
  "run_copy s =
     s\<lparr>copy_weights := map clone (heap s (weights (model_outer s))),
       copy_biases := map clone (heap s (biases (model_outer s))),
       copy_context := clone (task_context (model_outer s))\<rparr>"

text \<open>Line 83.\<close>

definition init_meta_gradient :: "run_state \<Rightarrow> run_state" where
  "init_meta_gradient s =
     s\<lparr>meta_gradient := map (\<lambda>_. IntZero) [0..<length (copy_weights s @ copy_biases s) + 1]\<rparr>"

text \<open>Lines 91-93.\<close>

definition run_reset :: "run_state \<Rightarrow> run_state" where
  "run_reset s =
     (let (aw, s1) = new_list (map clone (copy_weights s)) s;
          s2 = s1\<lparr>model_inner := (model_inner s1)\<lparr>weights := aw\<rparr>\<rparr>;
          (ab, s3) = new_list (map clone (copy_biases s2)) s2;
          s4 = s3\<lparr>model_inner := (model_inner s3)\<lparr>biases := ab\<rparr>\<rparr>
      in s4\<lparr>model_inner := (model_inner s4)\<lparr>task_context := clone (copy_context s4)\<rparr>\<rparr>)"

text \<open>
  Lines 115-118 and their copies below: the gradient component as it enters the update,
  detached when \<^verbatim>\<open>config['first_order']\<close> is set.
\<close>

definition used_grad :: "config \<Rightarrow> run_state \<Rightarrow> gtensor \<Rightarrow> gtensor" where
  "used_grad cfg s g = (if \<not> first_order cfg then g else detach (leaf_data s) g)"

text \<open>
  Lines 114-118, the body of \<^verbatim>\<open>for i in range(len(model_inner.weights))\<close>:
  \<^verbatim>\<open>model_inner.weights[i] = model_outer.weights[i] - config['lr_inner'] * grads[i]\<close>.
\<close>

definition inner_weight_stmt :: "config \<Rightarrow> gtensor list \<Rightarrow> nat \<Rightarrow> run_state \<Rightarrow> run_state result" where
  "inner_weight_stmt cfg grads i s0 =
     (let s = s0\<lparr>var_i := Some i\<rparr> in
      case bind_err (getitem (heap s (weights (model_outer s))) i) (\<lambda>w.
           bind_err (getitem grads i) (\<lambda>g.
           Inr (gsub w (gscale (lr_inner cfg) (used_grad cfg s g))))) of
        Inl e \<Rightarrow> Raise e s
      | Inr v \<Rightarrow> setitem (weights (model_inner s)) i v s)"

text \<open>
  Lines 119-123, the body of \<^verbatim>\<open>for j in range(len(model_inner.biases))\<close>:
  \<^verbatim>\<open>model_inner.biases[j] = model_outer.biases[j] - config['lr_inner'] * grads[i + j + 1]\<close>.
\<close>

definition inner_bias_stmt :: "config \<Rightarrow> gtensor list \<Rightarrow> nat \<Rightarrow> run_state \<Rightarrow> run_state result" where
  "inner_bias_stmt cfg grads j s0 =
     (let s = s0\<lparr>var_j := Some j\<rparr> in
      case bind_err (getitem (heap s (biases (model_outer s))) j) (\<lambda>b.
           bind_err (load_local ''i'' (var_i s)) (\<lambda>i.
           bind_err (load_local ''j'' (var_j s)) (\<lambda>j'.
           bind_err (getitem grads (i + j' + 1)) (\<lambda>g.
           Inr (gsub b (gscale (lr_inner cfg) (used_grad cfg s g))))))) of
        Inl e \<Rightarrow> Raise e s
      | Inr v \<Rightarrow> setitem (biases (model_inner s)) j v s)"

text \<open>
  Lines 124-127:
  \<^verbatim>\<open>model_inner.task_context = model_outer.task_context - config['lr_inner'] * grads[i + j + 2]\<close>.
\<close>

definition inner_context_stmt :: "config \<Rightarrow> gtensor list \<Rightarrow> run_state \<Rightarrow> run_state result" where
  "inner_context_stmt cfg grads s =
     assign
       (bind_err (load_local ''i'' (var_i s)) (\<lambda>i.
        bind_err (load_local ''j'' (var_j s)) (\<lambda>j.
        bind_err (getitem grads (i + j + 2)) (\<lambda>g.
        Inr (gsub (task_context (model_outer s)) (gscale (lr_inner cfg) (used_grad cfg s g)))))))
       (\<lambda>v. s\<lparr>model_inner := (model_inner s)\<lparr>task_context := v\<rparr>\<rparr>) s"

text \<open>
  Lines 100-127, one pass of \<^verbatim>\<open>for _ in range(config['num_inner_updates'])\<close>. The forward
  pass of line 101 and the \<^verbatim>\<open>params\<close> of line 112 are those of \<^verbatim>\<open>model_outer\<close>. With
  \<^verbatim>\<open>create_graph=True\<close> the gradient is itself a tensor with a history: a function of the
  leaves.
\<close>

definition inner_update ::
  "config \<Rightarrow> forward \<Rightarrow> autograd \<Rightarrow> (tensor \<Rightarrow> tensor) list \<Rightarrow> nat \<Rightarrow> tensor \<Rightarrow> run_state \<Rightarrow> run_state result" where
  "inner_update cfg fwd D target_functions t train_inputs s =
     (let outputs = (\<lambda>v. fwd (graph_values s (model_outer s) v) train_inputs) in
      case getitem target_functions t of
        Inl e \<Rightarrow> Raise e s
      | Inr target_function \<Rightarrow>
         (let targets = target_function train_inputs;
              loss_task = (\<lambda>v. mse_loss (outputs v) targets);
              params = heap s (weights (model_outer s)) @ heap s (biases (model_outer s))
                         @ [task_context (model_outer s)];
              grads = map (\<lambda>k. (\<lambda>v. D loss_task v k)) [0..<length params]
          in and_then (for_range (inner_weight_stmt cfg grads) [0..<length (heap s (weights (model_inner s)))] s)
               (\<lambda>s1. and_then (for_range (inner_bias_stmt cfg grads) [0..<length (heap s1 (biases (model_inner s1)))] s1)
               (inner_context_stmt cfg grads))))"

text \<open>\<^verbatim>\<open>0 + g\<close> for the integer 0, and \<^verbatim>\<open>a + g\<close> for a tensor.\<close>

definition cell_add :: "cell \<Rightarrow> tensor \<Rightarrow> cell" where
  "cell_add c g = (case c of IntZero \<Rightarrow> Tens (map (\<lambda>x. 0 + x) g) | Tens a \<Rightarrow> Tens (tadd a g))"

text \<open>Line 147, the body of the loop: \<^verbatim>\<open>meta_gradient[i] += task_grads[i].detach()\<close>.\<close>

definition accum_stmt :: "tensor list \<Rightarrow> nat \<Rightarrow> run_state \<Rightarrow> run_state result" where
  "accum_stmt task_grads i s0 =
     (let s = s0\<lparr>var_i := Some i\<rparr> in
      assign
        (bind_err (getitem (meta_gradient s) i) (\<lambda>c.
         bind_err (getitem task_grads i) (\<lambda>g.
         Inr (cell_add c g))))
        (\<lambda>v. s\<lparr>meta_gradient := (meta_gradient s)[i := v]\<rparr>) s)"

text \<open>
  Lines 132-147: the test loss of \<^verbatim>\<open>model_inner\<close>, its gradient with respect to the tensors
  of \<^verbatim>\<open>model_outer\<close> (at their current values), and the accumulation.
\<close>

definition meta_step ::
  "forward \<Rightarrow> autograd \<Rightarrow> (tensor \<Rightarrow> tensor) list \<Rightarrow> nat \<Rightarrow> tensor \<Rightarrow> run_state \<Rightarrow> run_state result" where
  "meta_step fwd D target_functions t test_inputs s =
     (let test_outputs = (\<lambda>v. fwd (graph_values s (model_inner s) v) test_inputs) in
      case getitem target_functions t of
        Inl e \<Rightarrow> Raise e s
      | Inr target_function \<Rightarrow>
         (let test_targets = target_function test_inputs;
              loss_meta = (\<lambda>v. mse_loss (test_outputs v) test_targets);
              inputs = heap s (weights (model_outer s)) @ heap s (biases (model_outer s))
                         @ [task_context (model_outer s)];
              task_grads = map (D loss_meta (leaf_data s)) [0..<length inputs]
          in for_range (accum_stmt task_grads)
               [0..<length (heap s (weights (model_inner s)) @ heap s (biases (model_inner s))) + 1] s))"

text \<open>
  Lines 91-127 for task \<open>t\<close>: the reset of \<^verbatim>\<open>model_inner\<close> and the inner loop. The inputs
  that \<^verbatim>\<open>sample_inputs\<close> draws for task \<open>t\<close> are given: \<open>train_inputs t\<close> here and
  \<open>test_inputs t\<close> below.
\<close>

definition adapt ::
  "config \<Rightarrow> forward \<Rightarrow> autograd \<Rightarrow> (tensor \<Rightarrow> tensor) list \<Rightarrow> (nat \<Rightarrow> tensor)
     \<Rightarrow> nat \<Rightarrow> run_state \<Rightarrow> run_state result" where
  "adapt cfg fwd D target_functions train_inputs t s =
     repeat (num_inner_updates cfg) (inner_update cfg fwd D target_functions t (train_inputs t))
       (run_reset s)"

text \<open>
  Lines 91-147, the body of \<^verbatim>\<open>for t in range(config['tasks_per_metaupdate'])\<close>.
\<close>

definition task_body ::
  "config \<Rightarrow> forward \<Rightarrow> autograd \<Rightarrow> (tensor \<Rightarrow> tensor) list \<Rightarrow> (nat \<Rightarrow> tensor) \<Rightarrow> (nat \<Rightarrow> tensor)
     \<Rightarrow> nat \<Rightarrow> run_state \<Rightarrow> run_state result" where
  "task_body cfg fwd D target_functions train_inputs test_inputs t s =
     and_then (adapt cfg fwd D target_functions train_inputs t s)
       (meta_step fwd D target_functions t (test_inputs t))"

text \<open>
  Lines 78-147: the copies, the fresh accumulator and the loop over the tasks.
  \<open>target_functions\<close> is the list that \<^verbatim>\<open>sample_tasks\<close> returned in line 86.
\<close>

definition accumulate ::
  "config \<Rightarrow> forward \<Rightarrow> autograd \<Rightarrow> (tensor \<Rightarrow> tensor) list \<Rightarrow> (nat \<Rightarrow> tensor) \<Rightarrow> (nat \<Rightarrow> tensor)
     \<Rightarrow> run_state \<Rightarrow> run_state result" where
  "accumulate cfg fwd D target_functions train_inputs test_inputs s =
     for_range (task_body cfg fwd D target_functions train_inputs test_inputs)
       [0..<tasks_per_metaupdate cfg] (init_meta_gradient (run_copy s))"

text \<open>
  \<^verbatim>\<open>meta_gradient[k] / config['tasks_per_metaupdate']\<close> as the value stored into a
  \<^verbatim>\<open>.grad\<close> attribute. An entry that is still the integer 0 gives ZeroDivisionError for
  0 tasks and otherwise a Python float, which the \<^verbatim>\<open>.grad\<close> setter refuses. (A tensor
  entry means that a task was processed, so the divisor is not 0 there.)
\<close>

definition cell_div :: "cell \<Rightarrow> nat \<Rightarrow> error + tensor" where
  "cell_div c n =
     (case c of
        IntZero \<Rightarrow> (if n = 0 then Inl ZeroDivisionError else Inl TypeError)
      | Tens g \<Rightarrow> Inr (sdiv g n))"

text \<open>Line 151: \<^verbatim>\<open>meta_optimiser.zero_grad()\<close>.\<close>

definition zero_grad :: "run_state \<Rightarrow> run_state" where
  "zero_grad s =
     s\<lparr>weights_grad := map (\<lambda>_. None) (heap s (weights (model_outer s))),
       biases_grad := map (\<lambda>_. None) (heap s (biases (model_outer s))),
       context_grad := None\<rparr>"

text \<open>Lines 155-157, the body of \<^verbatim>\<open>for i in range(len(model_outer.weights))\<close>.\<close>

definition assign_weight_stmt :: "config \<Rightarrow> nat \<Rightarrow> run_state \<Rightarrow> run_state result" where
  "assign_weight_stmt cfg i s0 =
     (let s = s0\<lparr>var_i := Some i\<rparr> in
      assign
        (bind_err (getitem (meta_gradient s) i) (\<lambda>c.
         bind_err (cell_div c (tasks_per_metaupdate cfg)) (\<lambda>q.
         bind_err (getitem (heap s (weights (model_outer s))) i) (\<lambda>_. Inr q))))
        (\<lambda>q. s\<lparr>weights_grad := (weights_grad s)[i := Some q],
                meta_gradient := (meta_gradient s)[i := IntZero]\<rparr>) s)"

text \<open>Lines 158-160, the body of \<^verbatim>\<open>for j in range(len(model_outer.biases))\<close>.\<close>

definition assign_bias_stmt :: "config \<Rightarrow> nat \<Rightarrow> run_state \<Rightarrow> run_state result" where
  "assign_bias_stmt cfg j s0 =
     (let s = s0\<lparr>var_j := Some j\<rparr> in
      assign
        (bind_err (load_local ''i'' (var_i s)) (\<lambda>i.
         bind_err (load_local ''j'' (var_j s)) (\<lambda>j'.
         bind_err (getitem (meta_gradient s) (i + j' + 1)) (\<lambda>c.
         bind_err (cell_div c (tasks_per_metaupdate cfg)) (\<lambda>q.
         bind_err (getitem (heap s (biases (model_outer s))) j) (\<lambda>_. Inr (i + j' + 1, q)))))))
        (\<lambda>(k, q). s\<lparr>biases_grad := (biases_grad s)[j := Some q],
                     meta_gradient := (meta_gradient s)[k := IntZero]\<rparr>) s)"

text \<open>Lines 161-162.\<close>

definition assign_context_stmt :: "config \<Rightarrow> run_state \<Rightarrow> run_state result" where
  "assign_context_stmt cfg s =
     assign
       (bind_err (load_local ''i'' (var_i s)) (\<lambda>i.
        bind_err (load_local ''j'' (var_j s)) (\<lambda>j.
        bind_err (getitem (meta_gradient s) (i + j + 2)) (\<lambda>c.
        bind_err (cell_div c (tasks_per_metaupdate cfg)) (\<lambda>q. Inr (i + j + 2, q))))))
       (\<lambda>(k, q). s\<lparr>context_grad := Some q,
                    meta_gradient := (meta_gradient s)[k := IntZero]\<rparr>) s"

text \<open>Lines 151-162.\<close>

definition meta_assign :: "config \<Rightarrow> run_state \<Rightarrow> run_state result" where
  "meta_assign cfg s0 =
     (let s = zero_grad s0 in
      and_then (for_range (assign_weight_stmt cfg) [0..<length (heap s (weights (model_outer s)))] s)
        (\<lambda>s1. and_then (for_range (assign_bias_stmt cfg) [0..<length (heap s1 (biases (model_outer s1)))] s1)
        (assign_context_stmt cfg)))"

text \<open>
  Line 165: \<^verbatim>\<open>meta_optimiser.step()\<close> changes the data of the tensors it was given in
  line 68, the tensors of \<^verbatim>\<open>model_outer\<close>, from their \<^verbatim>\<open>.grad\<close> attributes. The rule
  (Adam, from \<^verbatim>\<open>torch.optim\<close>) is a parameter.
\<close>

type_synonym optimiser = "tensor list \<Rightarrow> tensor option list \<Rightarrow> tensor list"

definition optimiser_step :: "optimiser \<Rightarrow> run_state \<Rightarrow> run_state" where
  "optimiser_step opt s =
     s\<lparr>leaf_data := opt (leaf_data s) (weights_grad s @ biases_grad s @ [context_grad s])\<rparr>"

text \<open>Lines 78-165: one pass of \<^verbatim>\<open>for i_iter in range(config['n_iter'])\<close>, up to the logging.\<close>

definition run_iteration ::
  "config \<Rightarrow> forward \<Rightarrow> autograd \<Rightarrow> optimiser \<Rightarrow> (tensor \<Rightarrow> tensor) list \<Rightarrow> (nat \<Rightarrow> tensor) \<Rightarrow> (nat \<Rightarrow> tensor)
     \<Rightarrow> run_state \<Rightarrow> run_state result" where
  "run_iteration cfg fwd D opt target_functions train_inputs test_inputs s =
     and_then (accumulate cfg fwd D target_functions train_inputs test_inputs s)
       (\<lambda>s1. and_then (meta_assign cfg s1) (\<lambda>s2. Ok (optimiser_step opt s2)))"

text \<open>The values of the two models' parameters in a state.\<close>

definition outer_values :: "run_state \<Rightarrow> parameter_set" where
  "outer_values s = graph_values s (model_outer s) (leaf_data s)"

definition inner_values :: "run_state \<Rightarrow> parameter_set" where
  "inner_values s = graph_values s (model_inner s) (leaf_data s)"

text \<open>
  The state when the loop of line 75 is entered for the first time, for a model with the
  parameter values \<open>p\<close>: \<^verbatim>\<open>model_outer\<close> holds the leaves, \<^verbatim>\<open>model_inner\<close> (of which
  \<^verbatim>\<open>model_outer\<close> is a deep copy) holds tensors of its own with the same values in lists
  of its own, and no loop variable has been assigned.
\<close>

definition initial_state :: "parameter_set \<Rightarrow> run_state" where
  "initial_state p =
     (let nw = length (weight_values p); nb = length (bias_values p) in
      \<lparr>heap = (\<lambda>_. [])
          (0 := map leaf [0..<nw],
           1 := map (\<lambda>k. leaf (nw + k)) [0..<nb],
           2 := map (\<lambda>w. (\<lambda>v. w)) (weight_values p),
           3 := map (\<lambda>b. (\<lambda>v. b)) (bias_values p)),
       next_addr = 4,
       copy_weights = [], copy_biases = [], copy_context = (\<lambda>v. []),
       var_i = None, var_j = None,
       leaf_data = weight_values p @ bias_values p @ [context_value p],
       model_outer = \<lparr>weights = 0, biases = 1, task_context = leaf (nw + nb)\<rparr>,
       model_inner = \<lparr>weights = 2, biases = 3, task_context = (\<lambda>v. context_value p)\<rparr>,
       meta_gradient = [],
       weights_grad = map (\<lambda>_. None) (weight_values p),
       biases_grad = map (\<lambda>_. None) (bias_values p),
       context_grad = None\<rparr>)"

section \<open>Closed forms used in the proofs\<close>

text \<open>
  The \<^verbatim>\<open>params\<close> list of line 112 and the loss of line 109 as a function of the leaves,
  for the target function \<open>f\<close> and the inputs \<open>x\<close>.
\<close>

definition outer_params :: "run_state \<Rightarrow> gtensor list" where
  "outer_params s = heap s (weights (model_outer s)) @ heap s (biases (model_outer s))
                      @ [task_context (model_outer s)]"

definition task_loss :: "forward \<Rightarrow> (tensor \<Rightarrow> tensor) \<Rightarrow> tensor \<Rightarrow> run_state \<Rightarrow> tensor list \<Rightarrow> real" where
  "task_loss fwd f x s = (\<lambda>v. mse_loss (fwd (graph_values s (model_outer s) v) x) (f x))"

definition descent ::
  "config \<Rightarrow> forward \<Rightarrow> autograd \<Rightarrow> (tensor \<Rightarrow> tensor) \<Rightarrow> tensor \<Rightarrow> run_state \<Rightarrow> nat \<Rightarrow> gtensor" where
  "descent cfg fwd D f x s k =
     gsub (outer_params s ! k)
       (gscale (lr_inner cfg) (used_grad cfg s (\<lambda>v. D (task_loss fwd f x s) v k)))"

definition stepped ::
  "config \<Rightarrow> forward \<Rightarrow> autograd \<Rightarrow> (tensor \<Rightarrow> tensor) \<Rightarrow> tensor \<Rightarrow> run_state \<Rightarrow> run_state" where
  "stepped cfg fwd D f x s =
     (let nw = length (heap s (weights (model_outer s)));
          nb = length (heap s (biases (model_outer s)))
      in s\<lparr>heap := (heap s)
              (weights (model_inner s) := map (descent cfg fwd D f x s) [0..<nw],
               biases (model_inner s) := map (\<lambda>j. descent cfg fwd D f x s (nw + j)) [0..<nb]),
           var_i := Some (nw - 1), var_j := Some (nb - 1),
           model_inner := (model_inner s)\<lparr>task_context := descent cfg fwd D f x s (nw + nb)\<rparr>\<rparr>)"

definition inner_fresh :: "run_state \<Rightarrow> bool" where
  "inner_fresh s \<longleftrightarrow>
     weights (model_inner s) \<noteq> biases (model_inner s) \<and>
     weights (model_inner s) \<noteq> weights (model_outer s) \<and>
     weights (model_inner s) \<noteq> biases (model_outer s) \<and>
     biases (model_inner s) \<noteq> weights (model_outer s) \<and>
     biases (model_inner s) \<noteq> biases (model_outer s) \<and>
     length (heap s (weights (model_inner s))) = length (heap s (weights (model_outer s))) \<and>
     length (heap s (biases (model_inner s))) = length (heap s (biases (model_outer s)))"

text \<open>
  Well-formedness of the store: the lists of \<^verbatim>\<open>model_outer\<close> have been allocated. What the
  phases before the optimiser step keep: the object \<^verbatim>\<open>model_outer\<close>, the contents of its
  two lists and the data of the leaves.
\<close>

definition allocated :: "run_state \<Rightarrow> bool" where
  "allocated s \<longleftrightarrow> weights (model_outer s) < next_addr s \<and> biases (model_outer s) < next_addr s"

definition outer_kept :: "run_state \<Rightarrow> run_state \<Rightarrow> bool" where
  "outer_kept s0 s \<longleftrightarrow>
     model_outer s = model_outer s0 \<and> leaf_data s = leaf_data s0 \<and>
     heap s (weights (model_outer s0)) = heap s0 (weights (model_outer s0)) \<and>
     heap s (biases (model_outer s0)) = heap s0 (biases (model_outer s0)) \<and>
     allocated s"

definition inner_apart :: "run_state \<Rightarrow> bool" where
  "inner_apart s \<longleftrightarrow>
     weights (model_inner s) \<noteq> weights (model_outer s) \<and>
     weights (model_inner s) \<noteq> biases (model_outer s) \<and>
     biases (model_inner s) \<noteq> weights (model_outer s) \<and>
     biases (model_inner s) \<noteq> biases (model_outer s)"

definition kept_apart :: "run_state \<Rightarrow> run_state \<Rightarrow> bool" where
  "kept_apart s0 s \<longleftrightarrow> outer_kept s0 s \<and> inner_apart s"

section \<open>Example instances\<close>

text \<open>
  A model with one input, one output, no hidden layer and no context parameter, whose
  forward pass is \<^verbatim>\<open>F.linear(x, W.t(), b)\<close>; and a model that is a single scalar weight.
\<close>

definition linear_forward :: forward where
  "linear_forward p x =
     (case (weight_values p, bias_values p) of
        ((w # _) # _, (b # _) # _) \<Rightarrow> map (\<lambda>xi. xi * w + b) x
      | _ \<Rightarrow> map (\<lambda>_. 0) x)"

definition scalar_forward :: forward where
  "scalar_forward p x =
     (case weight_values p of
        (w # _) # _ \<Rightarrow> map (\<lambda>xi. w * xi) x
      | _ \<Rightarrow> map (\<lambda>_. 0) x)"

text \<open>
  An autograd for these two models: the symmetric difference quotient with step 1 in
  each entry, which is the exact partial derivative of a polynomial of degree at most 2,
  as the mean squared error of a model that is linear in its parameters is.
\<close>

definition central_difference :: autograd where
  "central_difference loss v k =
     map (\<lambda>c. (loss (v[k := (v ! k)[c := v ! k ! c + 1]])
                - loss (v[k := (v ! k)[c := v ! k ! c - 1]])) / 2)
       [0..<length (v ! k)]"

text \<open>The task \<open>y = 2 x\<close>, and the parameters, configuration and inputs of the examples.\<close>

definition double_task :: "tensor \<Rightarrow> tensor" where
  "double_task x = map (\<lambda>xi. 2 * xi) x"

definition example_params :: parameter_set where
  "example_params = \<lparr>weight_values = [[0]], bias_values = [[0]], context_value = []\<rparr>"

definition example_config :: "nat \<Rightarrow> nat \<Rightarrow> config" where
  "example_config k n =
     \<lparr>lr_inner = 1 / 2, first_order = True, num_inner_updates = k, tasks_per_metaupdate = n\<rparr>"

text \<open>
  The state of \<^verbatim>\<open>eval\<close> on entry, for a model with the parameter values \<open>p\<close>; the
  \<^verbatim>\<open>params\<close> list of line 248; and entry \<open>k\<close> of that list moved against component \<open>k\<close> of
  the gradient of line 249.
\<close>

definition eval_initial :: "parameter_set \<Rightarrow> eval_state" where
  "eval_initial p =
     \<lparr>heap = (\<lambda>_. [])(0 := weight_values p, 1 := bias_values p),
      next_addr = 2,
      copy_weights = [], copy_biases = [], copy_context = [],
      var_i = None, var_j = None,
      model = \<lparr>weights = 0, biases = 1, task_context = context_value p\<rparr>\<rparr>"

definition eval_params :: "eval_state \<Rightarrow> tensor list" where
  "eval_params s = heap s (weights (model s)) @ heap s (biases (model s)) @ [task_context (model s)]"

definition eval_descent ::
  "forward \<Rightarrow> autograd \<Rightarrow> real \<Rightarrow> tensor \<Rightarrow> tensor \<Rightarrow> eval_state \<Rightarrow> nat \<Rightarrow> tensor" where
  "eval_descent fwd D lr x y s k =
     tsub (eval_params s ! k)
       (smul lr (D (\<lambda>v. mse_loss (fwd (unflatten (length (heap s (weights (model s))))
                                   (length (heap s (biases (model s)))) v) x) y)
                  (eval_params s) k))"

text \<open>
  Parameter sets without a bias tensor and without a weight tensor, and what holds of the
  state at the head of the loop over the tasks (line 88): the lists of \<^verbatim>\<open>model_outer\<close> are
  allocated, the copies are the clones of its tensors, and the accumulator has one entry
  per parameter.
\<close>

definition no_bias_params :: parameter_set where
  "no_bias_params = \<lparr>weight_values = [[1]], bias_values = [], context_value = []\<rparr>"

definition task_inv :: "run_state \<Rightarrow> bool" where
  "task_inv s \<longleftrightarrow>
     allocated s \<and>
     copy_weights s = map clone (heap s (weights (model_outer s))) \<and>
     copy_biases s = map clone (heap s (biases (model_outer s))) \<and>
     copy_context s = clone (task_context (model_outer s)) \<and>
     length (meta_gradient s) =
       length (heap s (weights (model_outer s))) + length (heap s (biases (model_outer s))) + 1"

definition no_weight_params :: parameter_set where
  "no_weight_params = \<lparr>weight_values = [], bias_values = [[0]], context_value = []\<rparr>"


section \<open>The inner loop in the spec's words\<close>

text \<open>
  Following the spec's words (section 4.1): one step evaluates the function with the current
  working parameters, takes the gradient of the mean squared error with respect to the
  ordered parameter list, and replaces each working parameter by
  \<open>param - \<alpha> * grad_component\<close>; the loop makes \<open>K\<close> such steps.
\<close>

definition spec_inner_step :: "forward \<Rightarrow> autograd \<Rightarrow> real \<Rightarrow> tensor \<Rightarrow> tensor \<Rightarrow> parameter_set \<Rightarrow> parameter_set" where
  "spec_inner_step fwd D lr x y p =
     (let nw = length (weight_values p); nb = length (bias_values p);
          v = weight_values p @ bias_values p @ [context_value p];
          loss = (\<lambda>u. mse_loss (fwd (unflatten nw nb u) x) y)
      in unflatten nw nb (map (\<lambda>k. tsub (v ! k) (smul lr (D loss v k))) [0..<nw + nb + 1]))"

definition spec_inner_loop :: "forward \<Rightarrow> autograd \<Rightarrow> real \<Rightarrow> nat \<Rightarrow> tensor \<Rightarrow> tensor \<Rightarrow> parameter_set \<Rightarrow> parameter_set" where
  "spec_inner_loop fwd D lr K x y p = ((spec_inner_step fwd D lr x y) ^^ K) p"

text \<open>
  The tensors of \<^verbatim>\<open>model_outer\<close> are the leaves of the graph, in the order of the
  \<^verbatim>\<open>params\<close> list, and there are as many data as leaves.
\<close>

definition outer_is_leaves :: "run_state \<Rightarrow> bool" where
  "outer_is_leaves s \<longleftrightarrow>
     (let nw = length (heap s (weights (model_outer s)));
          nb = length (heap s (biases (model_outer s)))
      in heap s (weights (model_outer s)) = map leaf [0..<nw]
       \<and> heap s (biases (model_outer s)) = map (\<lambda>k. leaf (nw + k)) [0..<nb]
       \<and> task_context (model_outer s) = leaf (nw + nb)
       \<and> length (leaf_data s) = nw + nb + 1)"

section \<open>The meta-gradient in closed form\<close>

text \<open>
  Line 135 as a function of the leaves: the loss of \<^verbatim>\<open>model_inner\<close> on the test inputs,
  \<^verbatim>\<open>F.mse_loss(model_inner(test_inputs), target_functions[t](test_inputs))\<close>, for the tensors that
  \<^verbatim>\<open>model_inner\<close> holds in the state \<open>s\<close>.
\<close>
definition meta_loss :: "forward \<Rightarrow> (tensor \<Rightarrow> tensor) \<Rightarrow> tensor \<Rightarrow> run_state \<Rightarrow> tensor list \<Rightarrow> real" where
  "meta_loss fwd f x' s = (\<lambda>v. mse_loss (fwd (graph_values s (model_inner s) v) x') (f x'))"

text \<open>
  The values of \<^verbatim>\<open>model_inner\<close>'s tensors after lines 91-127, as a function of the leaves: the
  clones of the shared tensors when there is no inner update, and one descent step from them
  otherwise (every pass of the inner loop recomputes the same step, lemma
  \<open>repeat_inner_update\<close>).
\<close>
definition adapted_values ::
  "config \<Rightarrow> forward \<Rightarrow> autograd \<Rightarrow> (tensor \<Rightarrow> tensor) \<Rightarrow> tensor \<Rightarrow> run_state \<Rightarrow> tensor list \<Rightarrow> parameter_set" where
  "adapted_values cfg fwd D f x s v =
     (if num_inner_updates cfg = 0 then graph_values s (model_outer s) v
      else (let nw = length (heap s (weights (model_outer s)));
                nb = length (heap s (biases (model_outer s)))
            in \<lparr>weight_values = map (\<lambda>i. descent cfg fwd D f x s i v) [0..<nw],
                bias_values = map (\<lambda>j. descent cfg fwd D f x s (nw + j) v) [0..<nb],
                context_value = descent cfg fwd D f x s (nw + nb) v\<rparr>))"

text \<open>
  Lines 135-143 in closed form: component \<open>k\<close> of the gradient, with respect to the shared tensors,
  of the test loss of the adapted model.
\<close>
definition task_gradient ::
  "config \<Rightarrow> forward \<Rightarrow> autograd \<Rightarrow> (tensor \<Rightarrow> tensor) \<Rightarrow> tensor \<Rightarrow> tensor \<Rightarrow> run_state \<Rightarrow> nat \<Rightarrow> tensor" where
  "task_gradient cfg fwd D f x x' s k =
     D (\<lambda>v. mse_loss (fwd (adapted_values cfg fwd D f x s v) x') (f x')) (leaf_data s) k"

text \<open>Two states hold the same shared model with the same tensors.\<close>
definition same_outer :: "run_state \<Rightarrow> run_state \<Rightarrow> bool" where
  "same_outer s s' \<longleftrightarrow>
     model_outer s' = model_outer s \<and> leaf_data s' = leaf_data s \<and>
     heap s' (weights (model_outer s)) = heap s (weights (model_outer s)) \<and>
     heap s' (biases (model_outer s)) = heap s (biases (model_outer s))"

section \<open>The entry of \<^verbatim>\<open>run\<close> (lines 24-57)\<close>



















section \<open>Properties\<close>

lemma and_then_Ok [simp]: "and_then (Ok s) f = f s"
  by (simp add: and_then_def)

lemma and_then_Raise [simp]: "and_then (Raise e s) f = Raise e s"
  by (simp add: and_then_def)

lemma for_range_append:
  "for_range body (xs @ ys) s = and_then (for_range body xs s) (for_range body ys)"
  by (induction xs arbitrary: s) (auto simp: and_then_def split: result.splits)

lemma upd_map_drop:
  "n < length xs \<Longrightarrow> (map f [0..<n] @ drop n xs)[n := y] = map f [0..<n] @ y # drop (Suc n) xs"
  by (simp add: list_update_append Cons_nth_drop_Suc[symmetric])

lemma nth_map_drop:
  "n < length xs \<Longrightarrow> (map f [0..<n] @ drop n xs) ! n = xs ! n"
  by (simp add: nth_append)

lemma eval_weights_loop:
  "n \<le> length (heap s (weights (model s))) \<Longrightarrow> n \<le> length grads \<Longrightarrow>
   for_range (eval_weight_stmt lr grads) [0..<n] s =
     Ok (s\<lparr>heap := (heap s)(weights (model s) :=
              map (\<lambda>i. tsub (heap s (weights (model s)) ! i) (smul lr (grads ! i))) [0..<n]
                @ drop n (heap s (weights (model s)))),
           var_i := (if n = 0 then var_i s else Some (n - 1))\<rparr>)"
proof (induction n)
  case 0
  then show ?case by simp
next
  case (Suc n)
  then show ?case
    by (simp add: for_range_append eval_weight_stmt_def getitem_def bind_err_def setitem_def
        nth_map_drop upd_map_drop fun_eq_iff)
qed

lemma eval_biases_loop:
  "var_i s = Some i0 \<Longrightarrow> n \<le> length (heap s (biases (model s))) \<Longrightarrow> i0 + n < length grads \<Longrightarrow>
   for_range (eval_bias_stmt lr grads) [0..<n] s =
     Ok (s\<lparr>heap := (heap s)(biases (model s) :=
              map (\<lambda>j. tsub (heap s (biases (model s)) ! j) (smul lr (grads ! (i0 + j + 1)))) [0..<n]
                @ drop n (heap s (biases (model s)))),
           var_j := (if n = 0 then var_j s else Some (n - 1))\<rparr>)"
proof (induction n)
  case 0
  then show ?case by simp
next
  case (Suc n)
  then show ?case
    by (simp add: for_range_append eval_bias_stmt_def getitem_def bind_err_def setitem_def
        load_local_def nth_map_drop upd_map_drop fun_eq_iff)
qed

lemma eval_biases_loop_unbound:
  "var_i s = None \<Longrightarrow> 0 < n \<Longrightarrow> n \<le> length (heap s (biases (model s))) \<Longrightarrow>
   for_range (eval_bias_stmt lr grads) [0..<n] s = Raise (UnboundLocalError ''i'') (s\<lparr>var_j := Some 0\<rparr>)"
  by (cases "heap s (biases (model s))")
     (simp_all add: upt_conv_Cons eval_bias_stmt_def getitem_def bind_err_def load_local_def Let_def)

lemma eval_update_aligned:
  fixes fwd :: forward and D :: autograd and x y :: tensor and s :: eval_state
  assumes nw: "heap s (weights (model s)) \<noteq> []" and nb: "heap s (biases (model s)) \<noteq> []"
    and ne: "weights (model s) \<noteq> biases (model s)"
  defines "W \<equiv> heap s (weights (model s))" and "B \<equiv> heap s (biases (model s))"
  defines "G \<equiv> grad_tuple D
      (\<lambda>v. mse_loss (fwd (unflatten (length W) (length B) v) x) y) (W @ B @ [task_context (model s)])"
  shows "eval_update fwd D lr x y s =
     Ok (s\<lparr>heap := (heap s)
             (weights (model s) := map (\<lambda>i. tsub (W ! i) (smul lr (G ! i))) [0..<length W],
              biases (model s) := map (\<lambda>j. tsub (B ! j) (smul lr (G ! (length W + j)))) [0..<length B]),
           var_i := Some (length W - 1), var_j := Some (length B - 1),
           model := (model s)\<lparr>task_context :=
              tsub (task_context (model s)) (smul lr (G ! (length W + length B)))\<rparr>\<rparr>)"
proof -
  have lg: "length G = length W + length B + 1"
    by (simp add: G_def grad_tuple_def)
  obtain mw mb where w0: "length W = Suc mw" and b0: "length B = Suc mb"
    using nw nb by (cases W; cases B) (auto simp: W_def B_def)
  have steps: "eval_update fwd D lr x y s =
      and_then (for_range (eval_weight_stmt lr G) [0..<length W] s)
        (\<lambda>s1. and_then (for_range (eval_bias_stmt lr G) [0..<length (heap s1 (biases (model s1)))] s1)
        (eval_context_stmt lr G))"
    by (simp add: eval_update_def Let_def G_def W_def B_def)
  define s1 where "s1 = s\<lparr>heap := (heap s)(weights (model s) :=
       map (\<lambda>i. tsub (W ! i) (smul lr (G ! i))) [0..<length W]), var_i := Some mw\<rparr>"
  define s2 where "s2 = s1\<lparr>heap := (heap s1)(biases (model s) :=
       map (\<lambda>j. tsub (B ! j) (smul lr (G ! (length W + j)))) [0..<length B]), var_j := Some mb\<rparr>"
  have l1: "for_range (eval_weight_stmt lr G) [0..<length W] s = Ok s1"
    using eval_weights_loop[of "length W" s G lr] lg
    by (simp add: W_def[symmetric] s1_def w0)
  have b1: "heap s1 (biases (model s)) = B" "var_i s1 = Some mw" "model s1 = model s"
    using ne by (simp_all add: s1_def B_def)
  have l2: "for_range (eval_bias_stmt lr G) [0..<length B] s1 = Ok s2"
    using eval_biases_loop[of s1 mw "length B" G lr] lg b1
    by (simp add: s2_def w0 b0)
  have l3: "eval_context_stmt lr G s2 =
      Ok (s2\<lparr>model := (model s)\<lparr>task_context :=
              tsub (task_context (model s)) (smul lr (G ! (length W + length B)))\<rparr>\<rparr>)"
    using lg
    by (simp add: eval_context_stmt_def assign_def bind_err_def load_local_def getitem_def
        s2_def s1_def w0 b0)
  have "eval_update fwd D lr x y s =
      and_then (for_range (eval_bias_stmt lr G) [0..<length (heap s1 (biases (model s1)))] s1)
        (eval_context_stmt lr G)"
    by (simp only: steps l1 and_then_Ok)
  also have "\<dots> = eval_context_stmt lr G s2"
    by (simp only: b1 l2 and_then_Ok)
  also have "\<dots> = Ok (s2\<lparr>model := (model s)\<lparr>task_context :=
              tsub (task_context (model s)) (smul lr (G ! (length W + length B)))\<rparr>\<rparr>)"
    by (rule l3)
  finally show ?thesis
    by (simp add: s2_def s1_def w0 b0)
qed

lemma run_reset_eq:
  "run_reset s = s\<lparr>heap := (heap s)(next_addr s := map clone (copy_weights s),
                                    Suc (next_addr s) := map clone (copy_biases s)),
                   next_addr := Suc (Suc (next_addr s)),
                   model_inner := \<lparr>weights = next_addr s, biases = Suc (next_addr s),
                                   task_context = clone (copy_context s)\<rparr>\<rparr>"
  by (simp add: run_reset_def new_list_def Let_def)

lemma used_grad_frame [simp]:
  "used_grad cfg (s\<lparr>heap := h\<rparr>) = used_grad cfg s"
  "used_grad cfg (s\<lparr>var_i := a\<rparr>) = used_grad cfg s"
  "used_grad cfg (s\<lparr>var_j := b\<rparr>) = used_grad cfg s"
  by (simp_all add: used_grad_def fun_eq_iff)

lemma inner_weights_loop:
  "weights (model_inner s) \<noteq> weights (model_outer s) \<Longrightarrow>
   n \<le> length (heap s (weights (model_inner s))) \<Longrightarrow>
   n \<le> length (heap s (weights (model_outer s))) \<Longrightarrow> n \<le> length grads \<Longrightarrow>
   for_range (inner_weight_stmt cfg grads) [0..<n] s =
     Ok (s\<lparr>heap := (heap s)(weights (model_inner s) :=
              map (\<lambda>i. gsub (heap s (weights (model_outer s)) ! i)
                          (gscale (lr_inner cfg) (used_grad cfg s (grads ! i)))) [0..<n]
                @ drop n (heap s (weights (model_inner s)))),
           var_i := (if n = 0 then var_i s else Some (n - 1))\<rparr>)"
proof (induction n)
  case 0
  then show ?case by simp
next
  case (Suc n)
  then show ?case
    by (simp add: for_range_append inner_weight_stmt_def getitem_def bind_err_def setitem_def
        nth_map_drop upd_map_drop fun_eq_iff)
qed

lemma inner_biases_loop:
  "biases (model_inner s) \<noteq> biases (model_outer s) \<Longrightarrow> var_i s = Some i0 \<Longrightarrow>
   n \<le> length (heap s (biases (model_inner s))) \<Longrightarrow>
   n \<le> length (heap s (biases (model_outer s))) \<Longrightarrow> i0 + n < length grads \<Longrightarrow>
   for_range (inner_bias_stmt cfg grads) [0..<n] s =
     Ok (s\<lparr>heap := (heap s)(biases (model_inner s) :=
              map (\<lambda>j. gsub (heap s (biases (model_outer s)) ! j)
                          (gscale (lr_inner cfg) (used_grad cfg s (grads ! (i0 + j + 1))))) [0..<n]
                @ drop n (heap s (biases (model_inner s)))),
           var_j := (if n = 0 then var_j s else Some (n - 1))\<rparr>)"
proof (induction n)
  case 0
  then show ?case by simp
next
  case (Suc n)
  then show ?case
    by (simp add: for_range_append inner_bias_stmt_def getitem_def bind_err_def setitem_def
        load_local_def nth_map_drop upd_map_drop fun_eq_iff)
qed

lemma inner_biases_loop_unbound:
  "var_i s = None \<Longrightarrow> 0 < n \<Longrightarrow> n \<le> length (heap s (biases (model_outer s))) \<Longrightarrow>
   for_range (inner_bias_stmt cfg grads) [0..<n] s = Raise (UnboundLocalError ''i'') (s\<lparr>var_j := Some 0\<rparr>)"
  by (cases "heap s (biases (model_outer s))")
     (simp_all add: upt_conv_Cons inner_bias_stmt_def getitem_def bind_err_def load_local_def Let_def)

lemma inner_update_steps:
  "getitem tfs t = Inr f \<Longrightarrow>
   inner_update cfg fwd D tfs t x s =
     and_then (for_range (inner_weight_stmt cfg (map (\<lambda>k. (\<lambda>v. D (task_loss fwd f x s) v k)) [0..<length (outer_params s)]))
                 [0..<length (heap s (weights (model_inner s)))] s)
       (\<lambda>s1. and_then (for_range (inner_bias_stmt cfg (map (\<lambda>k. (\<lambda>v. D (task_loss fwd f x s) v k)) [0..<length (outer_params s)]))
                 [0..<length (heap s1 (biases (model_inner s1)))] s1)
       (inner_context_stmt cfg (map (\<lambda>k. (\<lambda>v. D (task_loss fwd f x s) v k)) [0..<length (outer_params s)])))"
  by (simp add: inner_update_def Let_def task_loss_def outer_params_def)

lemma inner_update_aligned:
  fixes fwd :: forward and D :: autograd
  assumes tf: "getitem tfs t = Inr f" and fresh: "inner_fresh s"
    and nw: "heap s (weights (model_outer s)) \<noteq> []" and nb: "heap s (biases (model_outer s)) \<noteq> []"
  shows "inner_update cfg fwd D tfs t x s = Ok (stepped cfg fwd D f x s)"
proof -
  define W where "W = heap s (weights (model_outer s))"
  define B where "B = heap s (biases (model_outer s))"
  define G where "G = map (\<lambda>k. (\<lambda>v. D (task_loss fwd f x s) v k)) [0..<length (outer_params s)]"
  obtain mw mb where w0: "length W = Suc mw" and b0: "length B = Suc mb"
    using nw nb by (cases W; cases B) (auto simp: W_def B_def)
  have lg: "length G = length W + length B + 1"
    by (simp add: G_def outer_params_def W_def B_def)
  have fr: "weights (model_inner s) \<noteq> biases (model_inner s)"
    "weights (model_inner s) \<noteq> weights (model_outer s)"
    "weights (model_inner s) \<noteq> biases (model_outer s)"
    "biases (model_inner s) \<noteq> weights (model_outer s)"
    "biases (model_inner s) \<noteq> biases (model_outer s)"
    "length (heap s (weights (model_inner s))) = length W"
    "length (heap s (biases (model_inner s))) = length B"
    using fresh by (simp_all add: inner_fresh_def W_def B_def)
  define s1 where "s1 = s\<lparr>heap := (heap s)(weights (model_inner s) :=
       map (\<lambda>i. gsub (W ! i) (gscale (lr_inner cfg) (used_grad cfg s (G ! i)))) [0..<length W]),
       var_i := Some mw\<rparr>"
  define s2 where "s2 = s1\<lparr>heap := (heap s1)(biases (model_inner s) :=
       map (\<lambda>j. gsub (B ! j) (gscale (lr_inner cfg) (used_grad cfg s (G ! (length W + j))))) [0..<length B]),
       var_j := Some mb\<rparr>"
  have l1: "for_range (inner_weight_stmt cfg G) [0..<length (heap s (weights (model_inner s)))] s = Ok s1"
    using inner_weights_loop[of s "length W" G cfg] lg fr
    by (simp add: W_def[symmetric] s1_def w0)
  have b1: "heap s1 (biases (model_inner s)) = heap s (biases (model_inner s))"
    "heap s1 (biases (model_outer s)) = B" "var_i s1 = Some mw"
    "model_inner s1 = model_inner s" "model_outer s1 = model_outer s"
    using fr by (simp_all add: s1_def B_def)
  have l2: "for_range (inner_bias_stmt cfg G) [0..<length B] s1 = Ok s2"
    using inner_biases_loop[of s1 mw "length B" G cfg] lg b1 fr
    by (simp add: s2_def w0 b0 s1_def)
  have l3: "inner_context_stmt cfg G s2 =
      Ok (s2\<lparr>model_inner := (model_inner s)\<lparr>task_context :=
              gsub (task_context (model_outer s))
                (gscale (lr_inner cfg) (used_grad cfg s (G ! (length W + length B))))\<rparr>\<rparr>)"
    using lg
    by (simp add: inner_context_stmt_def assign_def bind_err_def load_local_def getitem_def
        s2_def s1_def w0 b0)
  have "inner_update cfg fwd D tfs t x s =
      and_then (for_range (inner_bias_stmt cfg G) [0..<length (heap s1 (biases (model_inner s1)))] s1)
        (inner_context_stmt cfg G)"
    by (simp only: inner_update_steps[OF tf] G_def[symmetric] l1 and_then_Ok)
  also have "\<dots> = inner_context_stmt cfg G s2"
    by (simp only: b1 fr l2 and_then_Ok)
  also note l3
  finally have r: "inner_update cfg fwd D tfs t x s =
      Ok (s2\<lparr>model_inner := (model_inner s)\<lparr>task_context :=
              gsub (task_context (model_outer s))
                (gscale (lr_inner cfg) (used_grad cfg s (G ! (length W + length B))))\<rparr>\<rparr>)" .
  have op: "outer_params s = W @ B @ [task_context (model_outer s)]"
    by (simp add: outer_params_def W_def B_def)
  have gk: "\<And>k. k < length W + length B + 1 \<Longrightarrow> G ! k = (\<lambda>v. D (task_loss fwd f x s) v k)"
    by (simp add: G_def op del: upt_Suc)
  have e1: "map (\<lambda>i. gsub (W ! i) (gscale (lr_inner cfg) (used_grad cfg s (G ! i)))) [0..<length W]
      = map (descent cfg fwd D f x s) [0..<length W]"
    by (rule map_cong) (simp_all add: descent_def op gk nth_append)
  have e2: "map (\<lambda>j. gsub (B ! j) (gscale (lr_inner cfg) (used_grad cfg s (G ! (length W + j))))) [0..<length B]
      = map (\<lambda>j. descent cfg fwd D f x s (length W + j)) [0..<length B]"
    by (rule map_cong) (simp_all add: descent_def op gk nth_append)
  have e3: "gsub (task_context (model_outer s))
                (gscale (lr_inner cfg) (used_grad cfg s (G ! (length W + length B))))
      = descent cfg fwd D f x s (length W + length B)"
    by (simp add: descent_def op gk nth_append)
  have m: "length W - 1 = mw" "length B - 1 = mb"
    by (simp_all add: w0 b0)
  show ?thesis
    unfolding r e3 s2_def s1_def e1 e2 stepped_def Let_def W_def[symmetric] B_def[symmetric] m
    using fr by simp
qed

lemma stepped_frame:
  assumes "inner_fresh s"
  shows "inner_fresh (stepped cfg fwd D f x s)"
    and "outer_params (stepped cfg fwd D f x s) = outer_params s"
    and "model_outer (stepped cfg fwd D f x s) = model_outer s"
    and "leaf_data (stepped cfg fwd D f x s) = leaf_data s"
    and "heap (stepped cfg fwd D f x s) (weights (model_outer s)) = heap s (weights (model_outer s))"
    and "heap (stepped cfg fwd D f x s) (biases (model_outer s)) = heap s (biases (model_outer s))"
  using assms by (simp_all add: inner_fresh_def stepped_def Let_def outer_params_def)

lemma descent_stepped:
  assumes "inner_fresh s"
  shows "descent cfg fwd D f x (stepped cfg' fwd' D' f' x' s) = descent cfg fwd D f x s"
  using assms
  by (simp add: descent_def stepped_frame task_loss_def graph_values_def used_grad_def fun_eq_iff)

lemma stepped_idem:
  assumes "inner_fresh s"
  shows "stepped cfg fwd D f x (stepped cfg fwd D f x s) = stepped cfg fwd D f x s"
proof -
  have d: "descent cfg fwd D f x (stepped cfg fwd D f x s) = descent cfg fwd D f x s"
    by (rule descent_stepped[OF assms])
  show ?thesis
    using assms
    by (subst (1) stepped_def) (simp add: Let_def d stepped_frame, simp add: stepped_def Let_def)
qed

lemma repeat_inner_update:
  fixes fwd :: forward and D :: autograd
  assumes tf: "getitem tfs t = Inr f" and fresh: "inner_fresh s"
    and nw: "heap s (weights (model_outer s)) \<noteq> []" and nb: "heap s (biases (model_outer s)) \<noteq> []"
  shows "repeat (Suc n) (inner_update cfg fwd D tfs t x) s = Ok (stepped cfg fwd D f x s)"
proof (induction n)
  case 0
  show ?case by (simp add: inner_update_aligned[OF tf fresh nw nb])
next
  case (Suc n)
  have again: "inner_update cfg fwd D tfs t x (stepped cfg fwd D f x s) = Ok (stepped cfg fwd D f x s)"
    using inner_update_aligned[OF tf stepped_frame(1)[OF fresh], of cfg fwd D f x cfg fwd D x] nw nb
    by (simp add: stepped_frame[OF fresh] stepped_idem[OF fresh])
  have "repeat (Suc (Suc n)) (inner_update cfg fwd D tfs t x) s
      = repeat (Suc n) (inner_update cfg fwd D tfs t x) (stepped cfg fwd D f x s)"
    by (simp add: inner_update_aligned[OF tf fresh nw nb])
  also have "\<dots> = Ok (stepped cfg fwd D f x s)"
  proof (induction n)
    case 0
    show ?case by (simp add: again)
  next
    case (Suc m)
    then show ?case by (simp add: again)
  qed
  finally show ?case .
qed

lemma state_of_simps [simp]: "state_of (Ok s) = s" "state_of (Raise e s) = s"
  by (simp_all add: state_of_def)

lemma for_range_inv:
  assumes "\<And>k s. Q s \<Longrightarrow> Q (state_of (body k s))" and "Q s"
  shows "Q (state_of (for_range body ks s))"
  using assms(2)
proof (induction ks arbitrary: s)
  case Nil
  then show ?case by simp
next
  case (Cons k ks)
  from assms(1)[OF Cons.prems, of k] Cons.IH show ?case
    by (cases "body k s") simp_all
qed

lemma repeat_inv:
  assumes "\<And>s. Q s \<Longrightarrow> Q (state_of (body s))" and "Q s"
  shows "Q (state_of (repeat n body s))"
  using assms(2)
proof (induction n arbitrary: s)
  case 0
  then show ?case by simp
next
  case (Suc n)
  from assms(1)[OF Suc.prems] Suc.IH show ?case
    by (cases "body s") simp_all
qed

lemma and_then_inv:
  assumes "Q (state_of r)" and "\<And>s. Q s \<Longrightarrow> Q' (state_of (f s))" and "\<And>s. Q s \<Longrightarrow> Q' s"
  shows "Q' (state_of (and_then r f))"
  using assms by (cases r) simp_all

lemma inner_weight_stmt_kept:
  "kept_apart s0 s \<Longrightarrow> kept_apart s0 (state_of (inner_weight_stmt cfg grads i s))"
  by (auto simp: kept_apart_def outer_kept_def inner_apart_def allocated_def inner_weight_stmt_def
      Let_def setitem_def bind_err_def getitem_def split: sum.splits if_splits)

lemma inner_bias_stmt_kept:
  "kept_apart s0 s \<Longrightarrow> kept_apart s0 (state_of (inner_bias_stmt cfg grads j s))"
  by (auto simp: kept_apart_def outer_kept_def inner_apart_def allocated_def inner_bias_stmt_def
      Let_def setitem_def bind_err_def getitem_def load_local_def split: sum.splits if_splits option.splits)

lemma inner_context_stmt_kept:
  "kept_apart s0 s \<Longrightarrow> kept_apart s0 (state_of (inner_context_stmt cfg grads s))"
  by (auto simp: kept_apart_def outer_kept_def inner_apart_def allocated_def inner_context_stmt_def
      assign_def bind_err_def getitem_def load_local_def split: sum.splits if_splits option.splits)

lemma inner_update_kept:
  "kept_apart s0 s \<Longrightarrow> kept_apart s0 (state_of (inner_update cfg fwd D tfs t x s))"
  unfolding inner_update_def Let_def
  apply (cases "getitem tfs t")
   apply simp
  apply simp
  apply (rule and_then_inv[where Q = "kept_apart s0"])
    apply (rule for_range_inv[where Q = "kept_apart s0"])
     apply (erule inner_weight_stmt_kept)
    apply assumption
   apply (rule and_then_inv[where Q = "kept_apart s0"])
     apply (rule for_range_inv[where Q = "kept_apart s0"])
      apply (erule inner_bias_stmt_kept)
     apply assumption
    apply (erule inner_context_stmt_kept)
   apply assumption
  apply assumption
  done

lemma run_reset_kept:
  "outer_kept s0 s \<Longrightarrow> kept_apart s0 (run_reset s)"
  by (auto simp: kept_apart_def outer_kept_def inner_apart_def allocated_def run_reset_eq)

lemma adapt_kept:
  "outer_kept s0 s \<Longrightarrow> kept_apart s0 (state_of (adapt cfg fwd D tfs tr t s))"
  unfolding adapt_def
  by (rule repeat_inv[where Q = "kept_apart s0"]) (erule inner_update_kept, erule run_reset_kept)

lemma accum_stmt_kept:
  "kept_apart s0 s \<Longrightarrow> kept_apart s0 (state_of (accum_stmt tg i s))"
  by (auto simp: kept_apart_def outer_kept_def inner_apart_def allocated_def accum_stmt_def
      Let_def assign_def bind_err_def getitem_def split: sum.splits if_splits)

lemma meta_step_kept:
  "kept_apart s0 s \<Longrightarrow> kept_apart s0 (state_of (meta_step fwd D tfs t x s))"
  unfolding meta_step_def Let_def
  apply (cases "getitem tfs t")
   apply simp
  apply simp
  apply (rule for_range_inv[where Q = "kept_apart s0"])
   apply (erule accum_stmt_kept)
  apply assumption
  done

lemma task_body_kept:
  assumes "outer_kept s0 s"
  shows "outer_kept s0 (state_of (task_body cfg fwd D tfs tr te t s))"
proof -
  have "kept_apart s0 (state_of (task_body cfg fwd D tfs tr te t s))"
    unfolding task_body_def
    by (rule and_then_inv[where Q = "kept_apart s0"])
       (rule adapt_kept[OF assms], erule meta_step_kept, assumption)
  then show ?thesis by (simp add: kept_apart_def)
qed

lemma outer_kept_refl: "allocated s \<Longrightarrow> outer_kept s s"
  by (simp add: outer_kept_def)

lemma accumulate_kept:
  "allocated s \<Longrightarrow> outer_kept s (state_of (accumulate cfg fwd D tfs tr te s))"
  unfolding accumulate_def
  apply (rule for_range_inv[where Q = "outer_kept s"])
   apply (erule task_body_kept)
  apply (simp add: outer_kept_def allocated_def init_meta_gradient_def run_copy_def)
  done

lemma assign_weight_stmt_kept:
  "outer_kept s0 s \<Longrightarrow> outer_kept s0 (state_of (assign_weight_stmt cfg i s))"
  by (auto simp: outer_kept_def allocated_def assign_weight_stmt_def
      Let_def assign_def bind_err_def getitem_def cell_div_def split: sum.splits if_splits cell.splits)

lemma assign_bias_stmt_kept:
  "outer_kept s0 s \<Longrightarrow> outer_kept s0 (state_of (assign_bias_stmt cfg j s))"
  by (auto simp: outer_kept_def allocated_def assign_bias_stmt_def
      Let_def assign_def bind_err_def getitem_def cell_div_def load_local_def
      split: sum.splits if_splits cell.splits option.splits)

lemma assign_context_stmt_kept:
  "outer_kept s0 s \<Longrightarrow> outer_kept s0 (state_of (assign_context_stmt cfg s))"
  by (auto simp: outer_kept_def allocated_def assign_context_stmt_def
      Let_def assign_def bind_err_def getitem_def cell_div_def load_local_def
      split: sum.splits if_splits cell.splits option.splits)

lemma meta_assign_kept:
  assumes "outer_kept s0 s"
  shows "outer_kept s0 (state_of (meta_assign cfg s))"
proof -
  have z: "outer_kept s0 (zero_grad s)"
    using assms by (auto simp: outer_kept_def allocated_def zero_grad_def)
  show ?thesis
    unfolding meta_assign_def Let_def
    apply (rule and_then_inv[where Q = "outer_kept s0"])
      apply (rule for_range_inv[where Q = "outer_kept s0"])
       apply (erule assign_weight_stmt_kept)
      apply (rule z)
     apply (rule and_then_inv[where Q = "outer_kept s0"])
       apply (rule for_range_inv[where Q = "outer_kept s0"])
        apply (erule assign_bias_stmt_kept)
       apply assumption
      apply (erule assign_context_stmt_kept)
     apply assumption
    apply assumption
    done
qed

lemma outer_kept_values: "outer_kept s0 s \<Longrightarrow> outer_values s = outer_values s0"
  by (simp add: outer_kept_def outer_values_def graph_values_def)


text \<open>
  C6. In every outer iteration, for every batch of tasks and every number of inner steps,
  the copying and the adaptation (lines 78-127), the whole accumulation (lines 78-147) and
  the assignment of the meta-gradient (lines 151-162) leave \<^verbatim>\<open>model_outer\<close>, the contents
  of its two lists and the data of its tensors as they were, also when one of them raises;
  of the whole iteration only the optimiser step of line 165 changes the data.
\<close>

theorem shared_parameters_kept:
  assumes "allocated s"
  shows "outer_kept s (state_of (adapt cfg fwd D tfs tr t (init_meta_gradient (run_copy s))))
    \<and> outer_kept s (state_of (accumulate cfg fwd D tfs tr te s))
    \<and> outer_kept s (state_of (and_then (accumulate cfg fwd D tfs tr te s) (meta_assign cfg)))
    \<and> (case run_iteration cfg fwd D opt tfs tr te s of
           Raise e s' \<Rightarrow> outer_kept s s'
         | Ok s' \<Rightarrow> model_outer s' = model_outer s
             \<and> heap s' (weights (model_outer s)) = heap s (weights (model_outer s))
             \<and> heap s' (biases (model_outer s)) = heap s (biases (model_outer s))
             \<and> leaf_data s' = opt (leaf_data s) (weights_grad s' @ biases_grad s' @ [context_grad s']))"
proof -
  have c: "outer_kept s (init_meta_gradient (run_copy s))"
    using assms by (simp add: outer_kept_def allocated_def init_meta_gradient_def run_copy_def)
  have ad: "outer_kept s (state_of (adapt cfg fwd D tfs tr t (init_meta_gradient (run_copy s))))"
    using adapt_kept[OF c] by (simp add: kept_apart_def)
  have a: "outer_kept s (state_of (accumulate cfg fwd D tfs tr te s))"
    by (rule accumulate_kept[OF assms])
  have b: "outer_kept s (state_of (and_then (accumulate cfg fwd D tfs tr te s) (meta_assign cfg)))"
    by (rule and_then_inv[where Q = "outer_kept s"]) (rule a, erule meta_assign_kept, assumption)
  have r: "case run_iteration cfg fwd D opt tfs tr te s of
           Raise e s' \<Rightarrow> outer_kept s s'
         | Ok s' \<Rightarrow> model_outer s' = model_outer s
             \<and> heap s' (weights (model_outer s)) = heap s (weights (model_outer s))
             \<and> heap s' (biases (model_outer s)) = heap s (biases (model_outer s))
             \<and> leaf_data s' = opt (leaf_data s) (weights_grad s' @ biases_grad s' @ [context_grad s'])"
  proof (cases "accumulate cfg fwd D tfs tr te s")
    case (Ok s1)
    with a have k1: "outer_kept s s1" by simp
    show ?thesis
    proof (cases "meta_assign cfg s1")
      case (Ok s2)
      with meta_assign_kept[OF k1, of cfg] have "outer_kept s s2" by simp
      then show ?thesis
        using \<open>accumulate cfg fwd D tfs tr te s = Ok s1\<close> Ok
        by (simp add: run_iteration_def optimiser_step_def outer_kept_def)
    next
      case (Raise e s2)
      with meta_assign_kept[OF k1, of cfg] have "outer_kept s s2" by simp
      then show ?thesis
        using \<open>accumulate cfg fwd D tfs tr te s = Ok s1\<close> Raise
        by (simp add: run_iteration_def)
    qed
  next
    case (Raise e s1)
    with a show ?thesis by (simp add: run_iteration_def)
  qed
  from ad a b r show ?thesis by simp
qed

theorem shared_parameters_kept_witness:
  "allocated (initial_state example_params)
   \<and> outer_kept (initial_state example_params)
        (state_of (accumulate (example_config 2 3) linear_forward central_difference
           [double_task, double_task, double_task] (\<lambda>t. [2]) (\<lambda>t. [3]) (initial_state example_params)))"
proof -
  have al: "allocated (initial_state example_params)"
    by (simp add: allocated_def initial_state_def Let_def)
  from shared_parameters_kept[OF al] show ?thesis
    using al by simp
qed

lemma eval_update_steps:
  "eval_update fwd D lr x y s =
      and_then (for_range (eval_weight_stmt lr (grad_tuple D
          (\<lambda>v. mse_loss (fwd (unflatten (length (heap s (weights (model s)))) (length (heap s (biases (model s)))) v) x) y)
          (heap s (weights (model s)) @ heap s (biases (model s)) @ [task_context (model s)])))
           [0..<length (heap s (weights (model s)))] s)
        (\<lambda>s1. and_then (for_range (eval_bias_stmt lr (grad_tuple D
          (\<lambda>v. mse_loss (fwd (unflatten (length (heap s (weights (model s)))) (length (heap s (biases (model s)))) v) x) y)
          (heap s (weights (model s)) @ heap s (biases (model s)) @ [task_context (model s)])))
           [0..<length (heap s1 (biases (model s1)))] s1)
        (eval_context_stmt lr (grad_tuple D
          (\<lambda>v. mse_loss (fwd (unflatten (length (heap s (weights (model s)))) (length (heap s (biases (model s)))) v) x) y)
          (heap s (weights (model s)) @ heap s (biases (model s)) @ [task_context (model s)]))))"
  by (simp add: eval_update_def Let_def)

lemma eval_update_no_weights:
  assumes "heap s (weights (model s)) = []" and "var_i s = None"
  shows "eval_update fwd D lr x y s =
     Raise (UnboundLocalError ''i'') (if heap s (biases (model s)) = [] then s else s\<lparr>var_j := Some 0\<rparr>)"
proof (cases "heap s (biases (model s)) = []")
  case True
  with assms show ?thesis
    by (simp add: eval_update_steps eval_context_stmt_def assign_def bind_err_def load_local_def)
next
  case False
  with assms show ?thesis
    by (simp add: eval_update_steps eval_biases_loop_unbound)
qed

lemma eval_update_no_biases:
  fixes fwd :: forward and D :: autograd and x y :: tensor and s :: eval_state
  assumes nw: "heap s (weights (model s)) \<noteq> []" and nb: "heap s (biases (model s)) = []"
    and vj: "var_j s = None"
  defines "W \<equiv> heap s (weights (model s))"
  defines "G \<equiv> grad_tuple D
      (\<lambda>v. mse_loss (fwd (unflatten (length W) 0 v) x) y) (W @ [task_context (model s)])"
  shows "eval_update fwd D lr x y s =
     Raise (UnboundLocalError ''j'')
       (s\<lparr>heap := (heap s)(weights (model s) := map (\<lambda>i. tsub (W ! i) (smul lr (G ! i))) [0..<length W]),
          var_i := Some (length W - 1)\<rparr>)"
proof -
  have ne: "weights (model s) \<noteq> biases (model s)"
    using nw nb by auto
  have lg: "length G = length W + 1"
    by (simp add: G_def grad_tuple_def)
  have w0: "0 < length W" using nw by (simp add: W_def)
  define s1 where "s1 = s\<lparr>heap := (heap s)(weights (model s) :=
       map (\<lambda>i. tsub (W ! i) (smul lr (G ! i))) [0..<length W]), var_i := Some (length W - 1)\<rparr>"
  have l1: "for_range (eval_weight_stmt lr G) [0..<length W] s = Ok s1"
    using eval_weights_loop[of "length W" s G lr] lg w0
    by (simp add: W_def[symmetric] s1_def)
  have b1: "heap s1 (biases (model s)) = []" "var_j s1 = None" "model s1 = model s"
    using ne nb vj by (simp_all add: s1_def)
  have "eval_update fwd D lr x y s =
      and_then (for_range (eval_bias_stmt lr G) [0..<length (heap s1 (biases (model s1)))] s1)
        (eval_context_stmt lr G)"
    by (simp only: eval_update_steps nb W_def[symmetric] G_def[symmetric] l1 and_then_Ok list.size append_Nil)
  also have "\<dots> = eval_context_stmt lr G s1"
    by (simp add: b1)
  also have "\<dots> = Raise (UnboundLocalError ''j'') s1"
    using vj by (simp add: eval_context_stmt_def assign_def bind_err_def load_local_def s1_def)
  finally show ?thesis by (simp add: s1_def)
qed

lemma inner_update_no_weights:
  assumes tf: "getitem tfs t = Inr f" and fresh: "inner_fresh s"
    and "heap s (weights (model_outer s)) = []" and "var_i s = None"
  shows "inner_update cfg fwd D tfs t x s =
     Raise (UnboundLocalError ''i'') (if heap s (biases (model_outer s)) = [] then s else s\<lparr>var_j := Some 0\<rparr>)"
proof (cases "heap s (biases (model_outer s)) = []")
  case True
  with assms show ?thesis
    by (simp add: inner_update_steps[OF tf] inner_fresh_def inner_context_stmt_def assign_def
        bind_err_def load_local_def)
next
  case False
  with assms show ?thesis
    by (simp add: inner_update_steps[OF tf] inner_fresh_def inner_biases_loop_unbound)
qed

lemma inner_update_no_biases:
  fixes fwd :: forward and D :: autograd
  assumes tf: "getitem tfs t = Inr f" and fresh: "inner_fresh s"
    and nw: "heap s (weights (model_outer s)) \<noteq> []" and nb: "heap s (biases (model_outer s)) = []"
    and vj: "var_j s = None"
  shows "inner_update cfg fwd D tfs t x s =
     Raise (UnboundLocalError ''j'')
       (s\<lparr>heap := (heap s)(weights (model_inner s) :=
             map (descent cfg fwd D f x s) [0..<length (heap s (weights (model_outer s)))]),
          var_i := Some (length (heap s (weights (model_outer s))) - 1)\<rparr>)"
proof -
  define W where "W = heap s (weights (model_outer s))"
  define G where "G = map (\<lambda>k. (\<lambda>v. D (task_loss fwd f x s) v k)) [0..<length (outer_params s)]"
  have fr: "weights (model_inner s) \<noteq> biases (model_inner s)"
    "weights (model_inner s) \<noteq> weights (model_outer s)"
    "weights (model_inner s) \<noteq> biases (model_outer s)"
    "length (heap s (weights (model_inner s))) = length W"
    "heap s (biases (model_inner s)) = []"
    using fresh nb by (simp_all add: inner_fresh_def W_def)
  have op: "outer_params s = W @ [task_context (model_outer s)]"
    by (simp add: outer_params_def W_def nb)
  have lg: "length G = length W + 1"
    by (simp add: G_def op)
  have w0: "0 < length W" using nw by (simp add: W_def)
  have gk: "\<And>k. k < length W + 1 \<Longrightarrow> G ! k = (\<lambda>v. D (task_loss fwd f x s) v k)"
    by (simp add: G_def op del: upt_Suc)
  have e1: "map (\<lambda>i. gsub (W ! i) (gscale (lr_inner cfg) (used_grad cfg s (G ! i)))) [0..<length W]
      = map (descent cfg fwd D f x s) [0..<length W]"
    by (rule map_cong) (simp_all add: descent_def op gk nth_append)
  define s1 where "s1 = s\<lparr>heap := (heap s)(weights (model_inner s) :=
       map (descent cfg fwd D f x s) [0..<length W]), var_i := Some (length W - 1)\<rparr>"
  have l1: "for_range (inner_weight_stmt cfg G) [0..<length (heap s (weights (model_inner s)))] s = Ok s1"
    using inner_weights_loop[of s "length W" G cfg] lg fr w0
    by (simp add: W_def[symmetric] s1_def e1)
  have b1: "heap s1 (biases (model_inner s)) = []" "var_j s1 = None" "model_inner s1 = model_inner s"
    using fr vj by (simp_all add: s1_def)
  have "inner_update cfg fwd D tfs t x s =
      and_then (for_range (inner_bias_stmt cfg G) [0..<length (heap s1 (biases (model_inner s1)))] s1)
        (inner_context_stmt cfg G)"
    by (simp only: inner_update_steps[OF tf] G_def[symmetric] l1 and_then_Ok)
  also have "\<dots> = inner_context_stmt cfg G s1"
    by (simp add: b1)
  also have "\<dots> = Raise (UnboundLocalError ''j'') s1"
    using vj by (simp add: inner_context_stmt_def assign_def bind_err_def load_local_def s1_def)
  finally show ?thesis by (simp add: s1_def W_def)
qed

lemma raised_simps [simp]: "raised (Ok s) = None" "raised (Raise e s) = Some e"
  by (simp_all add: raised_def)

lemma eval_descent_nth:
  fixes fwd :: forward and D :: autograd and x y :: tensor and s :: eval_state
  assumes "k < length (eval_params s)"
  shows "tsub (eval_params s ! k) (smul lr (grad_tuple D
      (\<lambda>v. mse_loss (fwd (unflatten (length (heap s (weights (model s)))) (length (heap s (biases (model s)))) v) x) y)
      (eval_params s) ! k)) = eval_descent fwd D lr x y s k"
  using assms by (simp add: eval_descent_def grad_tuple_def del: upt_Suc)

lemma eval_index_arithmetic:
  fixes fwd :: forward and D :: autograd and x y :: tensor and s :: eval_state and lr :: real
  defines "nw \<equiv> length (heap s (weights (model s)))"
    and "nb \<equiv> length (heap s (biases (model s)))"
    and "E \<equiv> eval_update fwd D lr x y s"
  shows "(0 < nw \<and> 0 < nb \<and> weights (model s) \<noteq> biases (model s) \<longrightarrow>
           raised E = None
           \<and> heap (state_of E) (weights (model s)) = map (eval_descent fwd D lr x y s) [0..<nw]
           \<and> heap (state_of E) (biases (model s)) = map (\<lambda>j. eval_descent fwd D lr x y s (nw + j)) [0..<nb]
           \<and> task_context (model (state_of E)) = eval_descent fwd D lr x y s (nw + nb)
           \<and> weights (model (state_of E)) = weights (model s)
           \<and> biases (model (state_of E)) = biases (model s))
       \<and> (nw = 0 \<and> var_i s = None \<longrightarrow>
           raised E = Some (UnboundLocalError ''i'') \<and> eval_values (state_of E) = eval_values s)
       \<and> (0 < nw \<and> nb = 0 \<and> var_j s = None \<longrightarrow>
           raised E = Some (UnboundLocalError ''j'')
           \<and> weight_values (eval_values (state_of E)) = map (eval_descent fwd D lr x y s) [0..<nw]
           \<and> bias_values (eval_values (state_of E)) = []
           \<and> context_value (eval_values (state_of E)) = task_context (model s))"
proof (intro conjI impI)
  assume a: "0 < nw \<and> 0 < nb \<and> weights (model s) \<noteq> biases (model s)"
  then have nw: "heap s (weights (model s)) \<noteq> []" and nb: "heap s (biases (model s)) \<noteq> []"
    and ne: "weights (model s) \<noteq> biases (model s)"
    by (auto simp: nw_def nb_def)
  note al = eval_update_aligned[OF nw nb ne, where lr=lr and D=D and fwd=fwd and x=x and y=y, folded E_def nw_def nb_def eval_params_def]
  have k: "\<And>k. k < nw + nb + 1 \<Longrightarrow> k < length (eval_params s)"
    by (simp add: eval_params_def nw_def nb_def)
  have p: "\<And>i. i < nw \<Longrightarrow> heap s (weights (model s)) ! i = eval_params s ! i"
    "\<And>j. j < nb \<Longrightarrow> heap s (biases (model s)) ! j = eval_params s ! (nw + j)"
    "task_context (model s) = eval_params s ! (nw + nb)"
    by (simp_all add: eval_params_def nw_def nb_def nth_append)
  have d: "\<And>k. k < nw + nb + 1 \<Longrightarrow> tsub (eval_params s ! k) (smul lr (grad_tuple D
      (\<lambda>v. mse_loss (fwd (unflatten nw nb v) x) y) (eval_params s) ! k)) = eval_descent fwd D lr x y s k"
    using eval_descent_nth[OF k, where lr=lr and D=D and fwd=fwd and x=x and y=y]
    by (simp add: nw_def nb_def)
  show "raised E = None" by (simp add: al)
  show "heap (state_of E) (weights (model s)) = map (eval_descent fwd D lr x y s) [0..<nw]"
    using ne by (simp add: al p d cong: map_cong)
  show "heap (state_of E) (biases (model s)) = map (\<lambda>j. eval_descent fwd D lr x y s (nw + j)) [0..<nb]"
    using ne by (simp add: al p d cong: map_cong)
  show "task_context (model (state_of E)) = eval_descent fwd D lr x y s (nw + nb)"
    using d[of "nw + nb"] by (simp add: al p(3)[symmetric])
  show "weights (model (state_of E)) = weights (model s)" by (simp add: al)
  show "biases (model (state_of E)) = biases (model s)" by (simp add: al)
next
  assume a: "nw = 0 \<and> var_i s = None"
  then have "heap s (weights (model s)) = []" "var_i s = None" by (simp_all add: nw_def)
  note f = eval_update_no_weights[OF this, where lr=lr and D=D and fwd=fwd and x=x and y=y, folded E_def]
  show "raised E = Some (UnboundLocalError ''i'')" by (simp add: f)
  show "eval_values (state_of E) = eval_values s" by (simp add: f eval_values_def)
next
  assume a: "0 < nw \<and> nb = 0 \<and> var_j s = None"
  then have nw: "heap s (weights (model s)) \<noteq> []" and nb: "heap s (biases (model s)) = []"
    and vj: "var_j s = None"
    by (auto simp: nw_def nb_def)
  have ne: "weights (model s) \<noteq> biases (model s)" using nw nb by auto
  note f = eval_update_no_biases[OF nw nb vj, where lr=lr and D=D and fwd=fwd and x=x and y=y, folded E_def nw_def]
  have ep: "eval_params s = heap s (weights (model s)) @ [task_context (model s)]"
    by (simp add: eval_params_def nb)
  have k: "\<And>k. k < nw \<Longrightarrow> k < length (eval_params s)"
    by (simp add: ep nw_def)
  have p: "\<And>i. i < nw \<Longrightarrow> heap s (weights (model s)) ! i = eval_params s ! i"
    by (simp add: ep nw_def nth_append)
  have d: "\<And>i. i < nw \<Longrightarrow> tsub (eval_params s ! i) (smul lr (grad_tuple D
      (\<lambda>v. mse_loss (fwd (unflatten nw 0 v) x) y) (eval_params s) ! i)) = eval_descent fwd D lr x y s i"
    using eval_descent_nth[OF k, where lr=lr and D=D and fwd=fwd and x=x and y=y] by (simp add: nw_def nb)
  show "raised E = Some (UnboundLocalError ''j'')" by (simp add: f)
  show "weight_values (eval_values (state_of E)) = map (eval_descent fwd D lr x y s) [0..<nw]"
    by (simp add: f eval_values_def p d ep[symmetric] cong: map_cong)
  show "bias_values (eval_values (state_of E)) = []"
    using ne by (simp add: f eval_values_def nb)
  show "context_value (eval_values (state_of E)) = task_context (model s)"
    by (simp add: f eval_values_def)
qed

lemma run_index_arithmetic:
  fixes fwd :: forward and D :: autograd and x :: tensor and r :: run_state and cfg :: config
    and tfs :: "(tensor \<Rightarrow> tensor) list" and t :: nat
  assumes tf: "getitem tfs t = Inr f" and fresh: "inner_fresh r"
  defines "nw \<equiv> length (heap r (weights (model_outer r)))"
    and "nb \<equiv> length (heap r (biases (model_outer r)))"
    and "R \<equiv> inner_update cfg fwd D tfs t x r"
  shows "(0 < nw \<and> 0 < nb \<longrightarrow>
           raised R = None
           \<and> heap (state_of R) (weights (model_inner r)) = map (descent cfg fwd D f x r) [0..<nw]
           \<and> heap (state_of R) (biases (model_inner r)) = map (\<lambda>j. descent cfg fwd D f x r (nw + j)) [0..<nb]
           \<and> task_context (model_inner (state_of R)) = descent cfg fwd D f x r (nw + nb)
           \<and> weights (model_inner (state_of R)) = weights (model_inner r)
           \<and> biases (model_inner (state_of R)) = biases (model_inner r))
       \<and> (nw = 0 \<and> var_i r = None \<longrightarrow>
           raised R = Some (UnboundLocalError ''i'')
           \<and> heap (state_of R) = heap r \<and> model_inner (state_of R) = model_inner r)
       \<and> (0 < nw \<and> nb = 0 \<and> var_j r = None \<longrightarrow>
           raised R = Some (UnboundLocalError ''j'')
           \<and> heap (state_of R) (weights (model_inner r)) = map (descent cfg fwd D f x r) [0..<nw]
           \<and> heap (state_of R) (biases (model_inner r)) = []
           \<and> model_inner (state_of R) = model_inner r)"
proof (intro conjI impI)
  assume a: "0 < nw \<and> 0 < nb"
  then have nw: "heap r (weights (model_outer r)) \<noteq> []" and nb: "heap r (biases (model_outer r)) \<noteq> []"
    by (auto simp: nw_def nb_def)
  note al = inner_update_aligned[OF tf fresh nw nb, where cfg=cfg and D=D and fwd=fwd and x=x, folded R_def]
  have ne: "weights (model_inner r) \<noteq> biases (model_inner r)"
    using fresh by (simp add: inner_fresh_def)
  show "raised R = None" by (simp add: al)
  show "heap (state_of R) (weights (model_inner r)) = map (descent cfg fwd D f x r) [0..<nw]"
    using ne by (simp add: al stepped_def Let_def nw_def)
  show "heap (state_of R) (biases (model_inner r)) = map (\<lambda>j. descent cfg fwd D f x r (nw + j)) [0..<nb]"
    using ne by (simp add: al stepped_def Let_def nw_def nb_def)
  show "task_context (model_inner (state_of R)) = descent cfg fwd D f x r (nw + nb)"
    by (simp add: al stepped_def Let_def nw_def nb_def)
  show "weights (model_inner (state_of R)) = weights (model_inner r)"
    by (simp add: al stepped_def Let_def)
  show "biases (model_inner (state_of R)) = biases (model_inner r)"
    by (simp add: al stepped_def Let_def)
next
  assume a: "nw = 0 \<and> var_i r = None"
  then have "heap r (weights (model_outer r)) = []" "var_i r = None" by (simp_all add: nw_def)
  note f = inner_update_no_weights[OF tf fresh this, where cfg=cfg and D=D and fwd=fwd and x=x, folded R_def]
  show "raised R = Some (UnboundLocalError ''i'')" by (simp add: f)
  show "heap (state_of R) = heap r" by (simp add: f)
  show "model_inner (state_of R) = model_inner r" by (simp add: f)
next
  assume a: "0 < nw \<and> nb = 0 \<and> var_j r = None"
  then have nw: "heap r (weights (model_outer r)) \<noteq> []" and nb: "heap r (biases (model_outer r)) = []"
    and vj: "var_j r = None"
    by (auto simp: nw_def nb_def)
  note f = inner_update_no_biases[OF tf fresh nw nb vj, where cfg=cfg and D=D and fwd=fwd and x=x, folded R_def nw_def]
  have fr: "weights (model_inner r) \<noteq> biases (model_inner r)" "heap r (biases (model_inner r)) = []"
    using fresh nb by (simp_all add: inner_fresh_def)
  show "raised R = Some (UnboundLocalError ''j'')" by (simp add: f)
  show "heap (state_of R) (weights (model_inner r)) = map (descent cfg fwd D f x r) [0..<nw]"
    by (simp add: f)
  show "heap (state_of R) (biases (model_inner r)) = []"
    using fr by (simp add: f)
  show "model_inner (state_of R) = model_inner r" by (simp add: f)
qed

lemma eval_reset_eq:
  "eval_reset s = s\<lparr>heap := (heap s)(next_addr s := map tclone (copy_weights s),
                                    Suc (next_addr s) := map tclone (copy_biases s)),
                   next_addr := Suc (Suc (next_addr s)),
                   model := \<lparr>weights = next_addr s, biases = Suc (next_addr s),
                             task_context = tclone (copy_context s)\<rparr>\<rparr>"
  by (simp add: eval_reset_def new_list_def Let_def)

lemma and_then_repeat_0 [simp]: "and_then r (repeat 0 body) = r"
  by (cases r) simp_all

lemma cex_state:
  "eval_reset (eval_copy (eval_initial no_bias_params)) =
     \<lparr>heap = (\<lambda>_. [])(0 := [[1]], 1 := [], 2 := [[1]], 3 := []),
      next_addr = 4, copy_weights = [[1]], copy_biases = [], copy_context = [],
      var_i = None, var_j = None,
      model = \<lparr>weights = 2, biases = 3, task_context = []\<rparr>\<rparr>"
  by (simp add: eval_reset_eq eval_copy_def eval_initial_def no_bias_params_def tclone_def
      numeral_2_eq_2 numeral_3_eq_3 eval_nat_numeral)

text \<open>
  The claim C10 as it was stated says that with an empty list of biases the step fails
  rather than performing any update. For a model that is one scalar weight 1 with no
  bias, adapted by \<^verbatim>\<open>eval\<close> with one step on the input 2 and the target 4, the step raises
  UnboundLocalError for \<^verbatim>\<open>j\<close>, and the weight held by the model is 5 by then.
\<close>

theorem partial_update_counterexample:
  "bias_values (eval_values (eval_reset (eval_copy (eval_initial no_bias_params)))) = []
   \<and> weight_values (eval_values (eval_reset (eval_copy (eval_initial no_bias_params)))) = [[1]]
   \<and> raised (eval_adapt scalar_forward central_difference (1 / 2) 1 [2] [4]
         (eval_copy (eval_initial no_bias_params))) = Some (UnboundLocalError ''j'')
   \<and> weight_values (eval_values (state_of (eval_adapt scalar_forward central_difference (1 / 2) 1 [2] [4]
         (eval_copy (eval_initial no_bias_params))))) = [[5]]"
proof -
  let ?s = "eval_reset (eval_copy (eval_initial no_bias_params))"
  have h: "weights (model ?s) = 2" "biases (model ?s) = 3" "heap ?s 2 = [[1]]" "heap ?s 3 = []"
    "var_j ?s = None" "task_context (model ?s) = []"
    by (simp_all add: cex_state)
  have nw: "heap ?s (weights (model ?s)) \<noteq> []" by (simp add: h)
  have nb: "heap ?s (biases (model ?s)) = []" by (simp add: h)
  note f = eval_update_no_biases[OF nw nb h(5), where lr="1/2" and D=central_difference
      and fwd=scalar_forward and x="[2]" and y="[4]"]
  have g: "grad_tuple central_difference (\<lambda>v. mse_loss (scalar_forward (unflatten (Suc 0) 0 v) [2]) [4]) [[1], []] ! 0 = [-8]"
    by (simp add: grad_tuple_def central_difference_def mse_loss_def scalar_forward_def unflatten_def)
  have a: "eval_adapt scalar_forward central_difference (1 / 2) 1 [2] [4] (eval_copy (eval_initial no_bias_params))
      = eval_update scalar_forward central_difference (1 / 2) [2] [4] ?s"
    by (simp add: eval_adapt_def)
  show ?thesis
    unfolding a f
    by (simp add: eval_values_def) (simp add: h g tsub_def smul_def)
qed

lemma clone_eq_id: "clone = id" "tclone = id"
  by (simp_all add: fun_eq_iff clone_def tclone_def)

lemma task_inv_init: "allocated s \<Longrightarrow> task_inv (init_meta_gradient (run_copy s))"
  by (simp add: task_inv_def allocated_def init_meta_gradient_def run_copy_def)

lemma run_reset_fresh:
  assumes "task_inv s"
  shows "inner_fresh (run_reset s)"
    and "model_outer (run_reset s) = model_outer s"
    and "leaf_data (run_reset s) = leaf_data s"
    and "heap (run_reset s) (weights (model_outer s)) = heap s (weights (model_outer s))"
    and "heap (run_reset s) (biases (model_outer s)) = heap s (biases (model_outer s))"
    and "heap (run_reset s) (weights (model_inner (run_reset s))) = heap s (weights (model_outer s))"
    and "heap (run_reset s) (biases (model_inner (run_reset s))) = heap s (biases (model_outer s))"
    and "task_context (model_inner (run_reset s)) = task_context (model_outer s)"
    and "var_i (run_reset s) = var_i s" and "var_j (run_reset s) = var_j s"
    and "meta_gradient (run_reset s) = meta_gradient s"
  using assms
  by (auto simp: task_inv_def allocated_def inner_fresh_def run_reset_eq clone_eq_id)

lemma eval_entry:
  fixes p :: parameter_set
  defines "s \<equiv> eval_reset (eval_copy (eval_initial p))"
  shows "weights (model s) = 2" "biases (model s) = 3" "heap s 2 = weight_values p"
    "heap s 3 = bias_values p" "task_context (model s) = context_value p"
    "var_i s = None" "var_j s = None"
  by (simp_all add: s_def eval_reset_eq eval_copy_def eval_initial_def clone_eq_id)

text \<open>
  C5. With \<^verbatim>\<open>num_inner_updates = 0\<close> the inner loop of lines 98-127 makes no pass: for
  every task and every state, lines 91-127 complete and leave \<^verbatim>\<open>model_inner\<close> with the
  clones of the copies as its weights, biases and context. Where the copies are those that
  lines 78-80 took of \<^verbatim>\<open>model_outer\<close>, every component has the value of the
  corresponding component of \<^verbatim>\<open>model_outer\<close>, as a function of the leaves and at their
  current data, and \<^verbatim>\<open>model_outer\<close> keeps its values.
\<close>

theorem no_inner_step_identity:
  assumes "num_inner_updates cfg = 0"
  shows "adapt cfg fwd D tfs tr t s = Ok (run_reset s)
    \<and> heap (run_reset s) (weights (model_inner (run_reset s))) = map clone (copy_weights s)
    \<and> heap (run_reset s) (biases (model_inner (run_reset s))) = map clone (copy_biases s)
    \<and> task_context (model_inner (run_reset s)) = clone (copy_context s)
    \<and> (task_inv s \<longrightarrow>
          (\<forall>v. graph_values (run_reset s) (model_inner (run_reset s)) v = graph_values s (model_outer s) v)
          \<and> inner_values (run_reset s) = outer_values s
          \<and> outer_values (run_reset s) = outer_values s)"
proof -
  have a: "adapt cfg fwd D tfs tr t s = Ok (run_reset s)"
    using assms by (simp add: adapt_def)
  have b: "heap (run_reset s) (weights (model_inner (run_reset s))) = map clone (copy_weights s)"
    "heap (run_reset s) (biases (model_inner (run_reset s))) = map clone (copy_biases s)"
    "task_context (model_inner (run_reset s)) = clone (copy_context s)"
    by (simp_all add: run_reset_eq)
  have c: "(\<forall>v. graph_values (run_reset s) (model_inner (run_reset s)) v = graph_values s (model_outer s) v)
      \<and> inner_values (run_reset s) = outer_values s \<and> outer_values (run_reset s) = outer_values s"
    if "task_inv s"
    using run_reset_fresh[OF that]
    by (simp add: graph_values_def inner_values_def outer_values_def)
  from a b c show ?thesis by simp
qed

lemma allocated_initial: "allocated (initial_state p)"
  by (simp add: allocated_def initial_state_def Let_def)

lemma initial_entry:
  fixes p :: parameter_set
  defines "s \<equiv> init_meta_gradient (run_copy (initial_state p))"
  shows "weights (model_outer s) = 0" "biases (model_outer s) = Suc 0"
    "heap s 0 = map leaf [0..<length (weight_values p)]"
    "heap s (Suc 0) = map (\<lambda>k. leaf (length (weight_values p) + k)) [0..<length (bias_values p)]"
    "task_context (model_outer s) = leaf (length (weight_values p) + length (bias_values p))"
    "leaf_data s = weight_values p @ bias_values p @ [context_value p]"
    "var_i s = None" "var_j s = None" "task_inv s"
  by (simp_all add: s_def task_inv_init[OF allocated_initial])
     (simp_all add: init_meta_gradient_def run_copy_def initial_state_def Let_def)

lemma map_nth_append:
  "map (\<lambda>k. (ws @ ys) ! k) [0..<length ws] = ws"
  "map (\<lambda>k. (ws @ bs @ ys) ! (length ws + k)) [0..<length bs] = bs"
proof -
  have "map (\<lambda>k. (ws @ ys) ! k) [0..<length ws] = map (\<lambda>k. ws ! k) [0..<length ws]"
    by (rule map_cong) (simp_all add: nth_append)
  then show "map (\<lambda>k. (ws @ ys) ! k) [0..<length ws] = ws"
    by (simp add: map_nth)
  have "map (\<lambda>k. (ws @ bs @ ys) ! (length ws + k)) [0..<length bs] = map (\<lambda>k. bs ! k) [0..<length bs]"
    by (rule map_cong) (simp_all add: nth_append)
  then show "map (\<lambda>k. (ws @ bs @ ys) ! (length ws + k)) [0..<length bs] = bs"
    by (simp add: map_nth)
qed

lemma outer_values_initial:
  "outer_values (init_meta_gradient (run_copy (initial_state p))) = p"
  by (simp add: outer_values_def graph_values_def initial_entry leaf_def map_nth_append comp_def)

theorem no_inner_step_identity_witness:
  "num_inner_updates (example_config 0 1) = 0
   \<and> task_inv (init_meta_gradient (run_copy (initial_state example_params)))
   \<and> inner_values (state_of (adapt (example_config 0 1) linear_forward central_difference
         [double_task] (\<lambda>t. [2]) 0 (init_meta_gradient (run_copy (initial_state example_params)))))
       = example_params"
proof -
  have k: "num_inner_updates (example_config 0 1) = 0"
    by (simp add: example_config_def)
  let ?s = "init_meta_gradient (run_copy (initial_state example_params))"
  note th = no_inner_step_identity[OF k, of linear_forward central_difference "[double_task]"
      "\<lambda>t. [2]" 0 ?s]
  from th have a: "adapt (example_config 0 1) linear_forward central_difference
         [double_task] (\<lambda>t. [2]) 0 ?s = Ok (run_reset ?s)"
    by (rule conjunct1)
  from th initial_entry(9)[of example_params]
  have b: "inner_values (run_reset ?s) = outer_values ?s"
    by blast
  show ?thesis
    using k a b initial_entry(9)[of example_params] by (simp add: outer_values_initial)
qed

text \<open>
  C10 (as amended). In one pass of the update of \<^verbatim>\<open>eval\<close> (lines 248-257) and of \<^verbatim>\<open>run\<close>
  (lines 112-127): when there is at least one weight tensor and at least one bias tensor,
  the pass completes, weight \<open>i\<close> is moved by gradient component \<open>i\<close>, bias \<open>j\<close> by component
  \<open>len(weights) + j\<close> and the context by component \<open>len(weights) + len(biases)\<close>. On the first
  pass, when no loop variable has been assigned: with no weight tensor the pass raises
  UnboundLocalError for \<^verbatim>\<open>i\<close> and no parameter has been replaced; with weight tensors and no
  bias tensor every weight is first replaced by its own aligned update, and the pass then
  raises UnboundLocalError for \<^verbatim>\<open>j\<close> with the biases and the context as they were.
\<close>

theorem index_arithmetic:
  fixes fwd :: forward and D :: autograd and x y :: tensor and s :: eval_state and lr :: real
    and r :: run_state and cfg :: config and tfs :: "(tensor \<Rightarrow> tensor) list" and t :: nat
    and f :: "tensor \<Rightarrow> tensor"
  defines "nw \<equiv> length (heap s (weights (model s)))"
    and "nb \<equiv> length (heap s (biases (model s)))"
    and "E \<equiv> eval_update fwd D lr x y s"
    and "mw \<equiv> length (heap r (weights (model_outer r)))"
    and "mb \<equiv> length (heap r (biases (model_outer r)))"
    and "R \<equiv> inner_update cfg fwd D tfs t x r"
  shows
   "((0 < nw \<and> 0 < nb \<and> weights (model s) \<noteq> biases (model s) \<longrightarrow>
           raised E = None
           \<and> heap (state_of E) (weights (model s)) = map (eval_descent fwd D lr x y s) [0..<nw]
           \<and> heap (state_of E) (biases (model s)) = map (\<lambda>j. eval_descent fwd D lr x y s (nw + j)) [0..<nb]
           \<and> task_context (model (state_of E)) = eval_descent fwd D lr x y s (nw + nb)
           \<and> weights (model (state_of E)) = weights (model s)
           \<and> biases (model (state_of E)) = biases (model s))
       \<and> (nw = 0 \<and> var_i s = None \<longrightarrow>
           raised E = Some (UnboundLocalError ''i'') \<and> eval_values (state_of E) = eval_values s)
       \<and> (0 < nw \<and> nb = 0 \<and> var_j s = None \<longrightarrow>
           raised E = Some (UnboundLocalError ''j'')
           \<and> weight_values (eval_values (state_of E)) = map (eval_descent fwd D lr x y s) [0..<nw]
           \<and> bias_values (eval_values (state_of E)) = []
           \<and> context_value (eval_values (state_of E)) = task_context (model s)))
    \<and> (getitem tfs t = Inr f \<and> inner_fresh r \<longrightarrow>
         (0 < mw \<and> 0 < mb \<longrightarrow>
           raised R = None
           \<and> heap (state_of R) (weights (model_inner r)) = map (descent cfg fwd D f x r) [0..<mw]
           \<and> heap (state_of R) (biases (model_inner r)) = map (\<lambda>j. descent cfg fwd D f x r (mw + j)) [0..<mb]
           \<and> task_context (model_inner (state_of R)) = descent cfg fwd D f x r (mw + mb)
           \<and> weights (model_inner (state_of R)) = weights (model_inner r)
           \<and> biases (model_inner (state_of R)) = biases (model_inner r))
       \<and> (mw = 0 \<and> var_i r = None \<longrightarrow>
           raised R = Some (UnboundLocalError ''i'')
           \<and> heap (state_of R) = heap r \<and> model_inner (state_of R) = model_inner r)
       \<and> (0 < mw \<and> mb = 0 \<and> var_j r = None \<longrightarrow>
           raised R = Some (UnboundLocalError ''j'')
           \<and> heap (state_of R) (weights (model_inner r)) = map (descent cfg fwd D f x r) [0..<mw]
           \<and> heap (state_of R) (biases (model_inner r)) = []
           \<and> model_inner (state_of R) = model_inner r))"
proof (rule conjI)
  show "(0 < nw \<and> 0 < nb \<and> weights (model s) \<noteq> biases (model s) \<longrightarrow>
           raised E = None
           \<and> heap (state_of E) (weights (model s)) = map (eval_descent fwd D lr x y s) [0..<nw]
           \<and> heap (state_of E) (biases (model s)) = map (\<lambda>j. eval_descent fwd D lr x y s (nw + j)) [0..<nb]
           \<and> task_context (model (state_of E)) = eval_descent fwd D lr x y s (nw + nb)
           \<and> weights (model (state_of E)) = weights (model s)
           \<and> biases (model (state_of E)) = biases (model s))
       \<and> (nw = 0 \<and> var_i s = None \<longrightarrow>
           raised E = Some (UnboundLocalError ''i'') \<and> eval_values (state_of E) = eval_values s)
       \<and> (0 < nw \<and> nb = 0 \<and> var_j s = None \<longrightarrow>
           raised E = Some (UnboundLocalError ''j'')
           \<and> weight_values (eval_values (state_of E)) = map (eval_descent fwd D lr x y s) [0..<nw]
           \<and> bias_values (eval_values (state_of E)) = []
           \<and> context_value (eval_values (state_of E)) = task_context (model s))"
    unfolding nw_def nb_def E_def by (rule eval_index_arithmetic)
next
  show "getitem tfs t = Inr f \<and> inner_fresh r \<longrightarrow>
         (0 < mw \<and> 0 < mb \<longrightarrow>
           raised R = None
           \<and> heap (state_of R) (weights (model_inner r)) = map (descent cfg fwd D f x r) [0..<mw]
           \<and> heap (state_of R) (biases (model_inner r)) = map (\<lambda>j. descent cfg fwd D f x r (mw + j)) [0..<mb]
           \<and> task_context (model_inner (state_of R)) = descent cfg fwd D f x r (mw + mb)
           \<and> weights (model_inner (state_of R)) = weights (model_inner r)
           \<and> biases (model_inner (state_of R)) = biases (model_inner r))
       \<and> (mw = 0 \<and> var_i r = None \<longrightarrow>
           raised R = Some (UnboundLocalError ''i'')
           \<and> heap (state_of R) = heap r \<and> model_inner (state_of R) = model_inner r)
       \<and> (0 < mw \<and> mb = 0 \<and> var_j r = None \<longrightarrow>
           raised R = Some (UnboundLocalError ''j'')
           \<and> heap (state_of R) (weights (model_inner r)) = map (descent cfg fwd D f x r) [0..<mw]
           \<and> heap (state_of R) (biases (model_inner r)) = []
           \<and> model_inner (state_of R) = model_inner r)"
  proof
    assume a: "getitem tfs t = Inr f \<and> inner_fresh r"
    then have tf: "getitem tfs t = Inr f" and fresh: "inner_fresh r" by simp_all
    show "(0 < mw \<and> 0 < mb \<longrightarrow>
           raised R = None
           \<and> heap (state_of R) (weights (model_inner r)) = map (descent cfg fwd D f x r) [0..<mw]
           \<and> heap (state_of R) (biases (model_inner r)) = map (\<lambda>j. descent cfg fwd D f x r (mw + j)) [0..<mb]
           \<and> task_context (model_inner (state_of R)) = descent cfg fwd D f x r (mw + mb)
           \<and> weights (model_inner (state_of R)) = weights (model_inner r)
           \<and> biases (model_inner (state_of R)) = biases (model_inner r))
       \<and> (mw = 0 \<and> var_i r = None \<longrightarrow>
           raised R = Some (UnboundLocalError ''i'')
           \<and> heap (state_of R) = heap r \<and> model_inner (state_of R) = model_inner r)
       \<and> (0 < mw \<and> mb = 0 \<and> var_j r = None \<longrightarrow>
           raised R = Some (UnboundLocalError ''j'')
           \<and> heap (state_of R) (weights (model_inner r)) = map (descent cfg fwd D f x r) [0..<mw]
           \<and> heap (state_of R) (biases (model_inner r)) = []
           \<and> model_inner (state_of R) = model_inner r)"
      unfolding mw_def mb_def R_def by (rule run_index_arithmetic[OF tf fresh])
  qed
qed

lemma reset_entry:
  fixes p :: parameter_set
  defines "r \<equiv> run_reset (init_meta_gradient (run_copy (initial_state p)))"
  shows "inner_fresh r"
    "length (heap r (weights (model_outer r))) = length (weight_values p)"
    "length (heap r (biases (model_outer r))) = length (bias_values p)"
    "var_i r = None" "var_j r = None"
  using run_reset_fresh[OF initial_entry(9)[of p]]
  by (simp_all add: r_def initial_entry)

theorem index_arithmetic_witness:
  "raised (eval_update linear_forward central_difference (1 / 2) [2] [4]
      (eval_reset (eval_copy (eval_initial example_params)))) = None
   \<and> raised (inner_update (example_config 1 1) linear_forward central_difference [double_task] 0 [2]
      (run_reset (init_meta_gradient (run_copy (initial_state example_params))))) = None
   \<and> raised (eval_update scalar_forward central_difference (1 / 2) [2] [4]
      (eval_reset (eval_copy (eval_initial no_bias_params)))) = Some (UnboundLocalError ''j'')
   \<and> raised (inner_update (example_config 1 1) scalar_forward central_difference [double_task] 0 [2]
      (run_reset (init_meta_gradient (run_copy (initial_state no_bias_params))))) = Some (UnboundLocalError ''j'')
   \<and> raised (eval_update linear_forward central_difference (1 / 2) [2] [4]
      (eval_reset (eval_copy (eval_initial no_weight_params)))) = Some (UnboundLocalError ''i'')
   \<and> raised (inner_update (example_config 1 1) linear_forward central_difference [double_task] 0 [2]
      (run_reset (init_meta_gradient (run_copy (initial_state no_weight_params))))) = Some (UnboundLocalError ''i'')"
proof -
  have tf: "getitem [double_task] 0 = Inr double_task"
    by (simp add: getitem_def)
  note a = index_arithmetic[where s = "eval_reset (eval_copy (eval_initial example_params))"
      and r = "run_reset (init_meta_gradient (run_copy (initial_state example_params)))"
      and fwd = linear_forward and D = central_difference and lr = "1 / 2" and x = "[2]" and y = "[4]"
      and cfg = "example_config 1 1" and tfs = "[double_task]" and t = 0 and f = double_task]
  note b = index_arithmetic[where s = "eval_reset (eval_copy (eval_initial no_bias_params))"
      and r = "run_reset (init_meta_gradient (run_copy (initial_state no_bias_params)))"
      and fwd = scalar_forward and D = central_difference and lr = "1 / 2" and x = "[2]" and y = "[4]"
      and cfg = "example_config 1 1" and tfs = "[double_task]" and t = 0 and f = double_task]
  note c = index_arithmetic[where s = "eval_reset (eval_copy (eval_initial no_weight_params))"
      and r = "run_reset (init_meta_gradient (run_copy (initial_state no_weight_params)))"
      and fwd = linear_forward and D = central_difference and lr = "1 / 2" and x = "[2]" and y = "[4]"
      and cfg = "example_config 1 1" and tfs = "[double_task]" and t = 0 and f = double_task]
  have a1: "raised (eval_update linear_forward central_difference (1 / 2) [2] [4]
      (eval_reset (eval_copy (eval_initial example_params)))) = None"
    using a by (simp add: eval_entry example_params_def)
  have a2: "raised (inner_update (example_config 1 1) linear_forward central_difference [double_task] 0 [2]
      (run_reset (init_meta_gradient (run_copy (initial_state example_params))))) = None"
    using a tf by (simp add: reset_entry example_params_def)
  have b1: "raised (eval_update scalar_forward central_difference (1 / 2) [2] [4]
      (eval_reset (eval_copy (eval_initial no_bias_params)))) = Some (UnboundLocalError ''j'')"
    using b by (simp add: eval_entry no_bias_params_def)
  have b2: "raised (inner_update (example_config 1 1) scalar_forward central_difference [double_task] 0 [2]
      (run_reset (init_meta_gradient (run_copy (initial_state no_bias_params))))) = Some (UnboundLocalError ''j'')"
    using b tf by (simp add: reset_entry no_bias_params_def)
  have c1: "raised (eval_update linear_forward central_difference (1 / 2) [2] [4]
      (eval_reset (eval_copy (eval_initial no_weight_params)))) = Some (UnboundLocalError ''i'')"
    using c by (simp add: eval_entry no_weight_params_def)
  have c2: "raised (inner_update (example_config 1 1) linear_forward central_difference [double_task] 0 [2]
      (run_reset (init_meta_gradient (run_copy (initial_state no_weight_params))))) = Some (UnboundLocalError ''i'')"
    using c tf by (simp add: reset_entry no_weight_params_def)
  from a1 a2 b1 b2 c1 c2 show ?thesis by simp
qed



lemma spec_inner_step_eq:
  "spec_inner_step fwd D lr x y p =
     (let nw = length (weight_values p); nb = length (bias_values p);
          v = weight_values p @ bias_values p @ [context_value p];
          g = (\<lambda>k. tsub (v ! k) (smul lr (D (\<lambda>u. mse_loss (fwd (unflatten nw nb u) x) y) v k)))
      in \<lparr>weight_values = map g [0..<nw], bias_values = map (\<lambda>j. g (nw + j)) [0..<nb],
          context_value = g (nw + nb)\<rparr>)"
proof -
  have n: "\<And>n (g :: nat \<Rightarrow> tensor) k. k < n \<Longrightarrow> map g [0..<n] ! k = g k"
    by simp
  show ?thesis
    unfolding spec_inner_step_def Let_def unflatten_def
    by (simp add: n nth_append del: upt_Suc cong: map_cong)
qed

lemma eval_update_spec:
  fixes fwd :: forward and D :: autograd and x y :: tensor and s :: eval_state and lr :: real
  assumes nw: "heap s (weights (model s)) \<noteq> []" and nb: "heap s (biases (model s)) \<noteq> []"
    and ne: "weights (model s) \<noteq> biases (model s)"
  shows "\<exists>s'. eval_update fwd D lr x y s = Ok s'
      \<and> eval_values s' = spec_inner_step fwd D lr x y (eval_values s)
      \<and> heap s' (weights (model s')) \<noteq> [] \<and> heap s' (biases (model s')) \<noteq> []
      \<and> weights (model s') \<noteq> biases (model s')"
proof -
  note ia = eval_index_arithmetic[where s=s and fwd=fwd and D=D and lr=lr and x=x and y=y]
  from nw nb ne ia have r: "raised (eval_update fwd D lr x y s) = None" by simp
  then obtain s' where s': "eval_update fwd D lr x y s = Ok s'"
    by (cases "eval_update fwd D lr x y s") simp_all
  from nw nb ne ia s' have h:
    "heap s' (weights (model s)) = map (eval_descent fwd D lr x y s) [0..<length (heap s (weights (model s)))]"
    "heap s' (biases (model s)) = map (\<lambda>j. eval_descent fwd D lr x y s (length (heap s (weights (model s))) + j))
        [0..<length (heap s (biases (model s)))]"
    "task_context (model s') = eval_descent fwd D lr x y s
        (length (heap s (weights (model s))) + length (heap s (biases (model s))))"
    "weights (model s') = weights (model s)" "biases (model s') = biases (model s)"
    by simp_all
  have v: "eval_values s' = spec_inner_step fwd D lr x y (eval_values s)"
    by (simp add: spec_inner_step_eq Let_def eval_values_def h)
       (simp add: eval_descent_def eval_params_def)
  from s' v h nw nb ne show ?thesis by simp
qed

lemma eval_repeat_spec:
  fixes fwd :: forward and D :: autograd and x y :: tensor and s :: eval_state and lr :: real
  assumes "heap s (weights (model s)) \<noteq> []" and "heap s (biases (model s)) \<noteq> []"
    and "weights (model s) \<noteq> biases (model s)"
  shows "\<exists>s'. repeat K (eval_update fwd D lr x y) s = Ok s'
      \<and> eval_values s' = ((spec_inner_step fwd D lr x y) ^^ K) (eval_values s)"
  using assms
proof (induction K arbitrary: s)
  case 0
  then show ?case by simp
next
  case (Suc K)
  from eval_update_spec[OF Suc.prems, of fwd D lr x y] obtain s1 where
    s1: "eval_update fwd D lr x y s = Ok s1"
    "eval_values s1 = spec_inner_step fwd D lr x y (eval_values s)"
    "heap s1 (weights (model s1)) \<noteq> []" "heap s1 (biases (model s1)) \<noteq> []"
    "weights (model s1) \<noteq> biases (model s1)" by blast
  from Suc.IH[OF s1(3-5)] obtain s' where
    "repeat K (eval_update fwd D lr x y) s1 = Ok s'"
    "eval_values s' = ((spec_inner_step fwd D lr x y) ^^ K) (eval_values s1)" by blast
  then show ?case
    by (simp add: s1 funpow_swap1)
qed

lemma flatten_unflatten:
  assumes "length v = nw + nb + 1"
  shows "map (\<lambda>k. v ! k) [0..<nw] @ map (\<lambda>k. v ! (nw + k)) [0..<nb] @ [v ! (nw + nb)] = v"
proof (rule nth_equalityI)
  show "length (map (\<lambda>k. v ! k) [0..<nw] @ map (\<lambda>k. v ! (nw + k)) [0..<nb] @ [v ! (nw + nb)]) = length v"
    using assms by simp
next
  fix i
  assume "i < length (map (\<lambda>k. v ! k) [0..<nw] @ map (\<lambda>k. v ! (nw + k)) [0..<nb] @ [v ! (nw + nb)])"
  then have i: "i < nw + nb + 1" by simp
  show "(map (\<lambda>k. v ! k) [0..<nw] @ map (\<lambda>k. v ! (nw + k)) [0..<nb] @ [v ! (nw + nb)]) ! i = v ! i"
  proof (cases "i < nw")
    case True
    then show ?thesis by (simp add: nth_append)
  next
    case False
    show ?thesis
    proof (cases "i < nw + nb")
      case True
      with False have "i - nw < nb" "nw + (i - nw) = i" by arith+
      with False show ?thesis by (simp add: nth_append)
    next
      case False
      with i have "i = nw + nb" by simp
      then show ?thesis by (simp add: nth_append)
    qed
  qed
qed

lemma leaves_values:
  assumes "outer_is_leaves s"
  shows "graph_values s (model_outer s) v
      = unflatten (length (heap s (weights (model_outer s)))) (length (heap s (biases (model_outer s)))) v"
    and "weight_values (outer_values s) @ bias_values (outer_values s) @ [context_value (outer_values s)]
      = leaf_data s"
    and "length (weight_values (outer_values s)) = length (heap s (weights (model_outer s)))"
    and "length (bias_values (outer_values s)) = length (heap s (biases (model_outer s)))"
proof -
  let ?nw = "length (heap s (weights (model_outer s)))"
  let ?nb = "length (heap s (biases (model_outer s)))"
  have h: "heap s (weights (model_outer s)) = map leaf [0..<?nw]"
    "heap s (biases (model_outer s)) = map (\<lambda>k. leaf (?nw + k)) [0..<?nb]"
    "task_context (model_outer s) = leaf (?nw + ?nb)"
    "length (leaf_data s) = ?nw + ?nb + 1"
    using assms by (simp_all add: outer_is_leaves_def Let_def)
  have g: "\<And>v. graph_values s (model_outer s) v = unflatten ?nw ?nb v"
    unfolding graph_values_def unflatten_def
    by (subst h(1), subst h(2), subst h(3)) (simp add: leaf_def comp_def)
  show "graph_values s (model_outer s) v = unflatten ?nw ?nb v" by (rule g)
  show "weight_values (outer_values s) @ bias_values (outer_values s) @ [context_value (outer_values s)]
      = leaf_data s"
    unfolding outer_values_def g unflatten_def
    using flatten_unflatten[OF h(4)] by simp
  show "length (weight_values (outer_values s)) = ?nw"
    by (simp add: outer_values_def graph_values_def)
  show "length (bias_values (outer_values s)) = ?nb"
    by (simp add: outer_values_def graph_values_def)
qed

lemma descent_value:
  "descent cfg fwd D f x s k (leaf_data s)
     = tsub ((outer_params s ! k) (leaf_data s))
         (smul (lr_inner cfg) (D (task_loss fwd f x s) (leaf_data s) k))"
  by (simp add: descent_def gsub_def gscale_def used_grad_def detach_def)

lemma initial_is_leaves: "outer_is_leaves (init_meta_gradient (run_copy (initial_state p)))"
  by (simp add: outer_is_leaves_def Let_def initial_entry)

lemma outer_params_leaf:
  assumes "outer_is_leaves s"
    and "k \<le> length (heap s (weights (model_outer s))) + length (heap s (biases (model_outer s)))"
  shows "outer_params s ! k = leaf k"
proof -
  let ?nw = "length (heap s (weights (model_outer s)))"
  let ?nb = "length (heap s (biases (model_outer s)))"
  have h: "heap s (weights (model_outer s)) = map leaf [0..<?nw]"
    "heap s (biases (model_outer s)) = map (\<lambda>k. leaf (?nw + k)) [0..<?nb]"
    "task_context (model_outer s) = leaf (?nw + ?nb)"
    using assms by (simp_all add: outer_is_leaves_def Let_def)
  have op: "outer_params s = map leaf [0..<?nw] @ map (\<lambda>k. leaf (?nw + k)) [0..<?nb] @ [leaf (?nw + ?nb)]"
    unfolding outer_params_def by (subst h(1), subst h(2), subst h(3)) simp
  show ?thesis
  proof (cases "k < ?nw")
    case True
    then show ?thesis unfolding op by (simp add: nth_append)
  next
    case False
    show ?thesis
    proof (cases "k < ?nw + ?nb")
      case True
      with False have "k - ?nw < ?nb" "?nw + (k - ?nw) = k" by arith+
      with False show ?thesis unfolding op by (simp add: nth_append)
    next
      case False
      with assms(2) have "k = ?nw + ?nb" by simp
      then show ?thesis unfolding op by (simp add: nth_append)
    qed
  qed
qed

lemma stepped_values:
  fixes fwd :: forward and D :: autograd
  assumes fresh: "inner_fresh r" and lv: "outer_is_leaves r"
  shows "inner_values (stepped cfg fwd D f x r)
      = spec_inner_step fwd D (lr_inner cfg) x (f x) (outer_values r)"
proof -
  let ?nw = "length (heap r (weights (model_outer r)))"
  let ?nb = "length (heap r (biases (model_outer r)))"
  have ne: "weights (model_inner r) \<noteq> biases (model_inner r)"
    using fresh by (simp add: inner_fresh_def)
  have tl: "task_loss fwd f x r = (\<lambda>v. mse_loss (fwd (unflatten ?nw ?nb v) x) (f x))"
    by (simp add: task_loss_def leaves_values(1)[OF lv])
  have dv: "\<And>k. k \<le> ?nw + ?nb \<Longrightarrow> descent cfg fwd D f x r k (leaf_data r)
      = tsub (leaf_data r ! k) (smul (lr_inner cfg)
          (D (\<lambda>v. mse_loss (fwd (unflatten ?nw ?nb v) x) (f x)) (leaf_data r) k))"
    by (simp add: descent_value outer_params_leaf[OF lv] tl leaf_def)
  have iv: "inner_values (stepped cfg fwd D f x r)
      = \<lparr>weight_values = map (\<lambda>i. descent cfg fwd D f x r i (leaf_data r)) [0..<?nw],
         bias_values = map (\<lambda>j. descent cfg fwd D f x r (?nw + j) (leaf_data r)) [0..<?nb],
         context_value = descent cfg fwd D f x r (?nw + ?nb) (leaf_data r)\<rparr>"
    using ne by (simp add: inner_values_def graph_values_def stepped_def Let_def comp_def)
  show ?thesis
    unfolding iv spec_inner_step_eq Let_def leaves_values(2-4)[OF lv]
    by (simp add: dv cong: map_cong)
qed

lemma adapt_single_step:
  fixes fwd :: forward and D :: autograd
  assumes tf: "getitem tfs t = Inr f" and inv: "task_inv s" and lv: "outer_is_leaves s"
    and nw: "heap s (weights (model_outer s)) \<noteq> []" and nb: "heap s (biases (model_outer s)) \<noteq> []"
    and k: "num_inner_updates cfg = Suc n"
  shows "adapt cfg fwd D tfs tr t s = Ok (stepped cfg fwd D f (tr t) (run_reset s))"
    and "inner_values (stepped cfg fwd D f (tr t) (run_reset s))
      = spec_inner_step fwd D (lr_inner cfg) (tr t) (f (tr t)) (outer_values s)"
proof -
  note rf = run_reset_fresh[OF inv]
  have nw': "heap (run_reset s) (weights (model_outer (run_reset s))) \<noteq> []"
    and nb': "heap (run_reset s) (biases (model_outer (run_reset s))) \<noteq> []"
    using nw nb by (simp_all add: rf)
  show "adapt cfg fwd D tfs tr t s = Ok (stepped cfg fwd D f (tr t) (run_reset s))"
    unfolding adapt_def k by (rule repeat_inner_update[OF tf rf(1) nw' nb'])
  have lv': "outer_is_leaves (run_reset s)"
    using lv by (simp add: outer_is_leaves_def rf)
  have ov: "outer_values (run_reset s) = outer_values s"
    by (simp add: outer_values_def graph_values_def rf)
  show "inner_values (stepped cfg fwd D f (tr t) (run_reset s))
      = spec_inner_step fwd D (lr_inner cfg) (tr t) (f (tr t)) (outer_values s)"
    using stepped_values[OF rf(1) lv'] by (simp add: ov)
qed

lemma eval_adapt_spec:
  fixes fwd :: forward and D :: autograd and x y :: tensor and s :: eval_state and lr :: real
  assumes "copy_weights s \<noteq> []" and "copy_biases s \<noteq> []"
  shows "\<exists>s'. eval_adapt fwd D lr K x y s = Ok s'
      \<and> eval_values s' = spec_inner_loop fwd D lr K x y
           \<lparr>weight_values = copy_weights s, bias_values = copy_biases s, context_value = copy_context s\<rparr>"
proof -
  have a: "heap (eval_reset s) (weights (model (eval_reset s))) \<noteq> []"
    "heap (eval_reset s) (biases (model (eval_reset s))) \<noteq> []"
    "weights (model (eval_reset s)) \<noteq> biases (model (eval_reset s))"
    using assms by (simp_all add: eval_reset_eq)
  have v: "eval_values (eval_reset s)
      = \<lparr>weight_values = copy_weights s, bias_values = copy_biases s, context_value = copy_context s\<rparr>"
    by (simp add: eval_values_def eval_reset_eq clone_eq_id)
  from eval_repeat_spec[OF a, of K fwd D lr x y] show ?thesis
    by (simp add: eval_adapt_def spec_inner_loop_def v)
qed

lemma example_step_1:
  "spec_inner_step linear_forward central_difference (1 / 2) [2] [4] example_params
     = \<lparr>weight_values = [[8]], bias_values = [[4]], context_value = []\<rparr>"
  by (simp add: spec_inner_step_eq Let_def example_params_def central_difference_def mse_loss_def
      linear_forward_def unflatten_def tsub_def smul_def)

lemma example_step_2:
  "spec_inner_step linear_forward central_difference (1 / 2) [2] [4]
      \<lparr>weight_values = [[8]], bias_values = [[4]], context_value = []\<rparr>
     = \<lparr>weight_values = [[- 24]], bias_values = [[- 12]], context_value = []\<rparr>"
  by (simp add: spec_inner_step_eq Let_def central_difference_def mse_loss_def
      linear_forward_def unflatten_def tsub_def smul_def)

lemma example_adapt:
  assumes "num_inner_updates cfg = Suc n" and "lr_inner cfg = 1 / 2"
  shows "raised (adapt cfg linear_forward central_difference [double_task] (\<lambda>t. [2]) 0
            (init_meta_gradient (run_copy (initial_state example_params)))) = None"
    and "inner_values (state_of (adapt cfg linear_forward central_difference [double_task] (\<lambda>t. [2]) 0
            (init_meta_gradient (run_copy (initial_state example_params)))))
          = \<lparr>weight_values = [[8]], bias_values = [[4]], context_value = []\<rparr>"
proof -
  let ?s = "init_meta_gradient (run_copy (initial_state example_params))"
  have tf: "getitem [double_task] 0 = Inr double_task" by (simp add: getitem_def)
  have nw: "heap ?s (weights (model_outer ?s)) \<noteq> []" and nb: "heap ?s (biases (model_outer ?s)) \<noteq> []"
    by (simp_all add: initial_entry example_params_def)
  note ss = adapt_single_step[OF tf initial_entry(9) initial_is_leaves nw nb assms(1),
      where fwd = linear_forward and D = central_difference and tr = "\<lambda>t. [2]"]
  show "raised (adapt cfg linear_forward central_difference [double_task] (\<lambda>t. [2]) 0 ?s) = None"
    by (simp add: ss(1))
  show "inner_values (state_of (adapt cfg linear_forward central_difference [double_task] (\<lambda>t. [2]) 0 ?s))
          = \<lparr>weight_values = [[8]], bias_values = [[4]], context_value = []\<rparr>"
    by (simp add: ss outer_values_initial assms(2) double_task_def example_step_1)
qed

text \<open>
  C1, evaluated on the code. A model with no hidden layer, weight 0 and bias 0, the task
  \<open>y = 2 x\<close>, the training input 2, step size 0.5, second-order mode. With two inner steps
  \<^verbatim>\<open>run\<close> completes with weight 8 and bias 4, which is what it gives with one step: every
  pass of lines 100-127 takes the loss and the parameters of \<^verbatim>\<open>model_outer\<close>. The two-fold
  iterate of the single-step update gives weight -24 and bias -12.
\<close>

theorem inner_loop_recomputes_first_step:
  "raised (adapt ((example_config 2 1)\<lparr>first_order := False\<rparr>) linear_forward central_difference
       [double_task] (\<lambda>t. [2]) 0 (init_meta_gradient (run_copy (initial_state example_params)))) = None
   \<and> inner_values (state_of (adapt ((example_config 2 1)\<lparr>first_order := False\<rparr>) linear_forward central_difference
       [double_task] (\<lambda>t. [2]) 0 (init_meta_gradient (run_copy (initial_state example_params)))))
       = \<lparr>weight_values = [[8]], bias_values = [[4]], context_value = []\<rparr>
   \<and> inner_values (state_of (adapt ((example_config 1 1)\<lparr>first_order := False\<rparr>) linear_forward central_difference
       [double_task] (\<lambda>t. [2]) 0 (init_meta_gradient (run_copy (initial_state example_params)))))
       = \<lparr>weight_values = [[8]], bias_values = [[4]], context_value = []\<rparr>
   \<and> spec_inner_loop linear_forward central_difference (1 / 2) 2 [2] (double_task [2]) example_params
       = \<lparr>weight_values = [[- 24]], bias_values = [[- 12]], context_value = []\<rparr>"
proof -
  have k2: "num_inner_updates ((example_config 2 1)\<lparr>first_order := False\<rparr>) = Suc 1"
    and k1: "num_inner_updates ((example_config 1 1)\<lparr>first_order := False\<rparr>) = Suc 0"
    and l2: "lr_inner ((example_config 2 1)\<lparr>first_order := False\<rparr>) = 1 / 2"
    and l1: "lr_inner ((example_config 1 1)\<lparr>first_order := False\<rparr>) = 1 / 2"
    by (simp_all add: example_config_def)
  have sp: "spec_inner_loop linear_forward central_difference (1 / 2) 2 [2] (double_task [2]) example_params
       = \<lparr>weight_values = [[- 24]], bias_values = [[- 12]], context_value = []\<rparr>"
    by (simp add: spec_inner_loop_def numeral_2_eq_2 double_task_def example_step_1 example_step_2)
  from example_adapt[OF k2 l2] example_adapt(2)[OF k1 l1] sp show ?thesis by simp
qed

text \<open>
  C2, evaluated on the code. The same model, input, target and step size, first-order mode,
  two steps: the adaptation of \<^verbatim>\<open>eval\<close> ends with weight -24 and bias -12, the inner loop of
  \<^verbatim>\<open>run\<close> with weight 8 and bias 4.
\<close>

theorem evaluator_adapts_further_than_training:
  "first_order (example_config 2 1) \<and> lr_inner (example_config 2 1) = 1 / 2
   \<and> num_inner_updates (example_config 2 1) = 2 \<and> double_task [2] = [4]
   \<and> raised (eval_adapt linear_forward central_difference (1 / 2) 2 [2] [4]
       (eval_copy (eval_initial example_params))) = None
   \<and> eval_values (state_of (eval_adapt linear_forward central_difference (1 / 2) 2 [2] [4]
       (eval_copy (eval_initial example_params))))
       = \<lparr>weight_values = [[- 24]], bias_values = [[- 12]], context_value = []\<rparr>
   \<and> raised (adapt (example_config 2 1) linear_forward central_difference
       [double_task] (\<lambda>t. [2]) 0 (init_meta_gradient (run_copy (initial_state example_params)))) = None
   \<and> inner_values (state_of (adapt (example_config 2 1) linear_forward central_difference
       [double_task] (\<lambda>t. [2]) 0 (init_meta_gradient (run_copy (initial_state example_params)))))
       = \<lparr>weight_values = [[8]], bias_values = [[4]], context_value = []\<rparr>"
proof -
  have c: "first_order (example_config 2 1)" "lr_inner (example_config 2 1) = 1 / 2"
    "num_inner_updates (example_config 2 1) = 2" "double_task [2] = [4]"
    by (simp_all add: example_config_def double_task_def)
  have k2: "num_inner_updates (example_config 2 1) = Suc 1"
    by (simp add: example_config_def)
  let ?e = "eval_copy (eval_initial example_params)"
  have cp: "copy_weights ?e = [[0]]" "copy_biases ?e = [[0]]" "copy_context ?e = []"
    by (simp_all add: eval_copy_def eval_initial_def example_params_def clone_eq_id)
  have ne: "copy_weights ?e \<noteq> []" "copy_biases ?e \<noteq> []" by (simp_all add: cp)
  from eval_adapt_spec[OF ne, of linear_forward central_difference "1 / 2" 2 "[2]" "[4]"]
  obtain s' where s': "eval_adapt linear_forward central_difference (1 / 2) 2 [2] [4] ?e = Ok s'"
    "eval_values s' = spec_inner_loop linear_forward central_difference (1 / 2) 2 [2] [4]
           \<lparr>weight_values = copy_weights ?e, bias_values = copy_biases ?e, context_value = copy_context ?e\<rparr>"
    by blast
  have ev: "eval_values s' = \<lparr>weight_values = [[- 24]], bias_values = [[- 12]], context_value = []\<rparr>"
    unfolding s'(2) cp
    by (simp add: spec_inner_loop_def numeral_2_eq_2 example_step_1[unfolded example_params_def] example_step_2)
  from c example_adapt[OF k2 c(2)] s'(1) ev show ?thesis by simp
qed

lemma central_difference_linear:
  "central_difference (\<lambda>v. mse_loss (linear_forward (unflatten 1 1 v) [x]) [y]) [[w], [b], []] 0
     = [2 * (x * w + b - y) * x]"
  "central_difference (\<lambda>v. mse_loss (linear_forward (unflatten 1 1 v) [x]) [y]) [[w], [b], []] 1
     = [2 * (x * w + b - y)]"
  "central_difference (\<lambda>v. mse_loss (linear_forward (unflatten 1 1 v) [x]) [y]) [[w], [b], []] 2 = []"
  by (simp_all add: central_difference_def mse_loss_def linear_forward_def unflatten_def
      power2_eq_square field_simps)

lemma linear_loss_derivatives:
  "((\<lambda>w::real. (x * w + b - y)\<^sup>2) has_field_derivative 2 * (x * w + b - y) * x) (at w)"
  "((\<lambda>b::real. (x * w + b - y)\<^sup>2) has_field_derivative 2 * (x * w + b - y)) (at b)"
  by (auto intro!: derivative_eq_intros)

lemma accum_loop:
  "n \<le> length (meta_gradient s) \<Longrightarrow> n \<le> length tg \<Longrightarrow>
   for_range (accum_stmt tg) [0..<n] s =
     Ok (s\<lparr>meta_gradient := map (\<lambda>k. cell_add (meta_gradient s ! k) (tg ! k)) [0..<n]
                                @ drop n (meta_gradient s),
           var_i := (if n = 0 then var_i s else Some (n - 1))\<rparr>)"
proof (induction n)
  case 0
  then show ?case by simp
next
  case (Suc n)
  then show ?case
    by (simp add: for_range_append accum_stmt_def getitem_def bind_err_def assign_def
        nth_map_drop upd_map_drop)
qed

lemma meta_step_eq:
  fixes fwd :: forward and D :: autograd
  assumes tf: "getitem tfs t = Inr f" and fresh: "inner_fresh s"
    and mg: "length (meta_gradient s)
        = length (heap s (weights (model_outer s))) + length (heap s (biases (model_outer s))) + 1"
  shows "meta_step fwd D tfs t x' s =
     Ok (s\<lparr>meta_gradient := map (\<lambda>k. cell_add (meta_gradient s ! k) (D (meta_loss fwd f x' s) (leaf_data s) k))
                                [0..<length (meta_gradient s)],
           var_i := Some (length (meta_gradient s) - 1)\<rparr>)"
proof -
  let ?n = "length (meta_gradient s)"
  let ?tg = "map (D (meta_loss fwd f x' s) (leaf_data s)) [0..<?n]"
  have l: "length (heap s (weights (model_inner s)) @ heap s (biases (model_inner s))) + 1 = ?n"
    using fresh mg by (simp add: inner_fresh_def)
  have lo: "length (heap s (weights (model_outer s)) @ heap s (biases (model_outer s))
                         @ [task_context (model_outer s)]) = ?n"
    using mg by simp
  have "meta_step fwd D tfs t x' s = for_range (accum_stmt ?tg) [0..<?n] s"
    unfolding meta_step_def Let_def l lo by (simp add: tf meta_loss_def)
  also have "\<dots> = Ok (s\<lparr>meta_gradient := map (\<lambda>k. cell_add (meta_gradient s ! k) (?tg ! k)) [0..<?n]
                                @ drop ?n (meta_gradient s),
           var_i := (if ?n = 0 then var_i s else Some (?n - 1))\<rparr>)"
    by (rule accum_loop) simp_all
  also have "map (\<lambda>k. cell_add (meta_gradient s ! k) (?tg ! k)) [0..<?n]
      = map (\<lambda>k. cell_add (meta_gradient s ! k) (D (meta_loss fwd f x' s) (leaf_data s) k)) [0..<?n]"
    by (rule map_cong) simp_all
  finally show ?thesis using mg by simp
qed

lemma descent_cong:
  "same_outer s r \<Longrightarrow> descent cfg fwd D f x r = descent cfg fwd D f x s"
  by (simp add: same_outer_def descent_def outer_params_def task_loss_def graph_values_def
      used_grad_def fun_eq_iff)

lemma adapted_values_cong:
  "same_outer s r \<Longrightarrow> adapted_values cfg fwd D f x r = adapted_values cfg fwd D f x s"
  by (simp add: adapted_values_def descent_cong fun_eq_iff)
     (simp add: same_outer_def graph_values_def)

lemma task_gradient_cong:
  "same_outer s r \<Longrightarrow> task_gradient cfg fwd D f x x' r = task_gradient cfg fwd D f x x' s"
  by (simp add: task_gradient_def adapted_values_cong fun_eq_iff) (simp add: same_outer_def)

lemma same_outer_reset: "task_inv s \<Longrightarrow> same_outer s (run_reset s)"
  using run_reset_fresh[of s] by (simp add: same_outer_def)

lemma task_body_ok:
  fixes fwd :: forward and D :: autograd
  assumes tf: "getitem tfs t = Inr f" and inv: "task_inv s"
    and ok: "num_inner_updates cfg = 0
       \<or> (heap s (weights (model_outer s)) \<noteq> [] \<and> heap s (biases (model_outer s)) \<noteq> [])"
  shows "\<exists>s'. task_body cfg fwd D tfs tr te t s = Ok s' \<and> task_inv s' \<and> same_outer s s'
      \<and> meta_gradient s' = map (\<lambda>k. cell_add (meta_gradient s ! k)
                                       (task_gradient cfg fwd D f (tr t) (te t) s k))
                              [0..<length (meta_gradient s)]"
proof -
  let ?r = "run_reset s"
  note rf = run_reset_fresh[OF inv]
  have so: "same_outer s ?r" by (rule same_outer_reset[OF inv])
  have mgl: "length (meta_gradient s)
        = length (heap s (weights (model_outer s))) + length (heap s (biases (model_outer s))) + 1"
    using inv by (simp add: task_inv_def)
  obtain a where a: "adapt cfg fwd D tfs tr t s = Ok a"
    and fa: "inner_fresh a" and sa: "same_outer s a"
    and ma: "meta_gradient a = meta_gradient s"
    and ca: "copy_weights a = copy_weights s" "copy_biases a = copy_biases s"
            "copy_context a = copy_context s"
    and na: "next_addr s \<le> next_addr a"
    and va: "\<And>v. graph_values a (model_inner a) v = adapted_values cfg fwd D f (tr t) s v"
  proof (cases "num_inner_updates cfg")
    case 0
    have "adapt cfg fwd D tfs tr t s = Ok ?r" by (simp add: adapt_def 0)
    moreover have "\<And>v. graph_values ?r (model_inner ?r) v = adapted_values cfg fwd D f (tr t) s v"
      by (simp add: adapted_values_def 0 graph_values_def rf)
    ultimately show ?thesis
      using that[of ?r] rf so by (simp add: run_reset_eq)
  next
    case (Suc n)
    with ok have nw: "heap s (weights (model_outer s)) \<noteq> []" and nb: "heap s (biases (model_outer s)) \<noteq> []"
      by simp_all
    let ?a = "stepped cfg fwd D f (tr t) ?r"
    have nw': "heap ?r (weights (model_outer ?r)) \<noteq> []" and nb': "heap ?r (biases (model_outer ?r)) \<noteq> []"
      using nw nb by (simp_all add: rf)
    have 1: "adapt cfg fwd D tfs tr t s = Ok ?a"
      unfolding adapt_def Suc by (rule repeat_inner_update[OF tf rf(1) nw' nb'])
    have ne: "weights (model_inner ?r) \<noteq> biases (model_inner ?r)"
      using rf(1) by (simp add: inner_fresh_def)
    have 2: "same_outer s ?a"
      using stepped_frame[OF rf(1), of cfg fwd D f "tr t"] rf by (simp add: same_outer_def)
    have 3: "\<And>v. graph_values ?a (model_inner ?a) v = adapted_values cfg fwd D f (tr t) s v"
      using ne
      by (simp add: adapted_values_def Suc graph_values_def stepped_def Let_def comp_def
          descent_cong[OF so] rf)
    have 4: "meta_gradient ?a = meta_gradient s" "copy_weights ?a = copy_weights s"
      "copy_biases ?a = copy_biases s" "copy_context ?a = copy_context s"
      "next_addr s \<le> next_addr ?a"
      by (simp_all add: stepped_def Let_def run_reset_eq)
    show ?thesis
      using that[of ?a] 1 2 3 4 stepped_frame(1)[OF rf(1)] by simp
  qed
  have mga: "length (meta_gradient a)
        = length (heap a (weights (model_outer a))) + length (heap a (biases (model_outer a))) + 1"
    using sa mgl ma by (simp add: same_outer_def)
  note ms = meta_step_eq[OF tf fa mga, of fwd D "te t"]
  have ml: "meta_loss fwd f (te t) a = (\<lambda>v. mse_loss (fwd (adapted_values cfg fwd D f (tr t) s v) (te t)) (f (te t)))"
    by (simp add: meta_loss_def va)
  let ?s' = "a\<lparr>meta_gradient := map (\<lambda>k. cell_add (meta_gradient a ! k) (D (meta_loss fwd f (te t) a) (leaf_data a) k))
                                [0..<length (meta_gradient a)],
           var_i := Some (length (meta_gradient a) - 1)\<rparr>"
  have tb: "task_body cfg fwd D tfs tr te t s = Ok ?s'"
    by (simp add: task_body_def a ms)
  have i': "task_inv ?s'"
    using inv sa ca na mgl ma by (auto simp: task_inv_def allocated_def same_outer_def)
  have so': "same_outer s ?s'"
    using sa by (simp add: same_outer_def)
  have mg': "meta_gradient ?s' = map (\<lambda>k. cell_add (meta_gradient s ! k)
                                       (task_gradient cfg fwd D f (tr t) (te t) s k))
                              [0..<length (meta_gradient s)]"
    using sa by (simp add: ma ml task_gradient_def same_outer_def)
  from tb i' so' mg' show ?thesis by blast
qed

lemma same_outer_refl: "same_outer s s"
  by (simp add: same_outer_def)

lemma same_outer_trans: "same_outer s r \<Longrightarrow> same_outer r u \<Longrightarrow> same_outer s u"
  by (simp add: same_outer_def)

lemma tasks_loop_ok:
  fixes fwd :: forward and D :: autograd
  assumes tasks: "\<And>t. t < m \<Longrightarrow> getitem tfs t = Inr f \<and> tr t = x \<and> te t = x'"
    and inv: "task_inv s"
    and ok: "num_inner_updates cfg = 0
       \<or> (heap s (weights (model_outer s)) \<noteq> [] \<and> heap s (biases (model_outer s)) \<noteq> [])"
  shows "\<exists>s'. for_range (task_body cfg fwd D tfs tr te) [0..<m] s = Ok s' \<and> task_inv s' \<and> same_outer s s'
      \<and> meta_gradient s' = map (\<lambda>k. ((\<lambda>c. cell_add c (task_gradient cfg fwd D f x x' s k)) ^^ m)
                                       (meta_gradient s ! k))
                              [0..<length (meta_gradient s)]"
  using tasks
proof (induction m)
  case 0
  show ?case using inv by (simp add: same_outer_refl map_nth)
next
  case (Suc m)
  have pre: "\<And>t. t < m \<Longrightarrow> getitem tfs t = Inr f \<and> tr t = x \<and> te t = x'"
    using Suc.prems by simp
  from Suc.IH[OF pre] obtain s1 where
    s1: "for_range (task_body cfg fwd D tfs tr te) [0..<m] s = Ok s1" "task_inv s1" "same_outer s s1"
    "meta_gradient s1 = map (\<lambda>k. ((\<lambda>c. cell_add c (task_gradient cfg fwd D f x x' s k)) ^^ m)
                                       (meta_gradient s ! k))
                              [0..<length (meta_gradient s)]"
    by blast
  have tf: "getitem tfs m = Inr f" and xs: "tr m = x" "te m = x'"
    using Suc.prems[of m] by simp_all
  have ok1: "num_inner_updates cfg = 0
       \<or> (heap s1 (weights (model_outer s1)) \<noteq> [] \<and> heap s1 (biases (model_outer s1)) \<noteq> [])"
    using ok s1(3) by (simp add: same_outer_def)
  from task_body_ok[OF tf s1(2) ok1, of fwd D tr te] obtain s2 where
    s2: "task_body cfg fwd D tfs tr te m s1 = Ok s2" "task_inv s2" "same_outer s1 s2"
    "meta_gradient s2 = map (\<lambda>k. cell_add (meta_gradient s1 ! k)
                                       (task_gradient cfg fwd D f (tr m) (te m) s1 k))
                              [0..<length (meta_gradient s1)]"
    by blast
  have tg: "task_gradient cfg fwd D f (tr m) (te m) s1 = task_gradient cfg fwd D f x x' s"
    by (simp add: xs task_gradient_cong[OF s1(3)])
  have "for_range (task_body cfg fwd D tfs tr te) [0..<Suc m] s = Ok s2"
    by (simp add: for_range_append s1(1) s2(1))
  moreover have "meta_gradient s2 = map (\<lambda>k. ((\<lambda>c. cell_add c (task_gradient cfg fwd D f x x' s k)) ^^ Suc m)
                                       (meta_gradient s ! k))
                              [0..<length (meta_gradient s)]"
    by (simp add: s2(4) tg s1(4) cong: map_cong)
  ultimately show ?case
    using s2(2) same_outer_trans[OF s1(3) s2(3)] by blast
qed

lemma cell_add_iterate:
  "((\<lambda>c. cell_add c g) ^^ m) IntZero = (if m = 0 then IntZero else Tens (smul (real m) g))"
proof (induction m)
  case 0
  show ?case by simp
next
  case (Suc m)
  show ?case
  proof (cases m)
    case 0
    then show ?thesis by (simp add: cell_add_def smul_def)
  next
    case (Suc n)
    with Suc.IH have ih: "((\<lambda>c. cell_add c g) ^^ m) IntZero = Tens (smul (real m) g)" by simp
    have "((\<lambda>c. cell_add c g) ^^ Suc m) IntZero = cell_add (Tens (smul (real m) g)) g"
      by (simp only: funpow.simps o_apply ih)
    also have "\<dots> = Tens (smul (real (Suc m)) g)"
      by (simp add: cell_add_def smul_def tadd_def zip_map1 zip_same_conv_map algebra_simps)
    finally show ?thesis by simp
  qed
qed

lemma cell_div_sum:
  "0 < m \<Longrightarrow> cell_div (Tens (smul (real m) g)) m = Inr g"
  by (simp add: cell_div_def sdiv_def smul_def comp_def)

lemma task_body_raise:
  fixes fwd :: forward and D :: autograd
  assumes tf: "getitem tfs t = Inr f" and inv: "task_inv s"
    and k: "num_inner_updates cfg = Suc n"
    and vi: "var_i s = None" and vj: "var_j s = None"
    and em: "heap s (weights (model_outer s)) = [] \<or> heap s (biases (model_outer s)) = []"
  shows "raised (task_body cfg fwd D tfs tr te t s)
     = Some (UnboundLocalError (if heap s (weights (model_outer s)) = [] then ''i'' else ''j''))"
proof -
  let ?r = "run_reset s"
  note rf = run_reset_fresh[OF inv]
  have "raised (inner_update cfg fwd D tfs t (tr t) ?r)
     = Some (UnboundLocalError (if heap s (weights (model_outer s)) = [] then ''i'' else ''j''))"
  proof (cases "heap s (weights (model_outer s)) = []")
    case True
    then have "heap ?r (weights (model_outer ?r)) = []" "var_i ?r = None"
      using vi by (simp_all add: rf)
    from inner_update_no_weights[OF tf rf(1) this, of cfg fwd D "tr t"] True show ?thesis by simp
  next
    case False
    with em have "heap ?r (weights (model_outer ?r)) \<noteq> []" "heap ?r (biases (model_outer ?r)) = []"
      "var_j ?r = None"
      using vj by (simp_all add: rf)
    from inner_update_no_biases[OF tf rf(1) this, of cfg fwd D "tr t"] False show ?thesis by simp
  qed
  then obtain st where "inner_update cfg fwd D tfs t (tr t) ?r
     = Raise (UnboundLocalError (if heap s (weights (model_outer s)) = [] then ''i'' else ''j'')) st"
    by (cases "inner_update cfg fwd D tfs t (tr t) ?r") simp_all
  then show ?thesis
    by (simp add: task_body_def adapt_def k)
qed

lemma zero_next:
  "n < N \<Longrightarrow> (map (\<lambda>k. if k < n then IntZero else Tens (g k)) [0..<N])[n := IntZero]
     = map (\<lambda>k. if k < Suc n then IntZero else Tens (g k)) [0..<N]"
  by (rule nth_equalityI) (auto simp: nth_list_update less_Suc_eq)

lemma assign_weights_loop:
  assumes "n \<le> length (heap s (weights (model_outer s)))" and "n \<le> N"
    and "meta_gradient s = map (\<lambda>k. Tens (g k)) [0..<N]"
    and "length (weights_grad s) = length (heap s (weights (model_outer s)))"
  shows "for_range (assign_weight_stmt cfg) [0..<n] s =
     Ok (s\<lparr>weights_grad := map (\<lambda>i. Some (sdiv (g i) (tasks_per_metaupdate cfg))) [0..<n]
                               @ drop n (weights_grad s),
           meta_gradient := map (\<lambda>k. if k < n then IntZero else Tens (g k)) [0..<N],
           var_i := (if n = 0 then var_i s else Some (n - 1))\<rparr>)"
  using assms(1,2)
proof (induction n)
  case 0
  then show ?case using assms(3) by simp
next
  case (Suc n)
  then show ?case
    using assms(4)
    by (simp add: for_range_append assign_weight_stmt_def getitem_def bind_err_def assign_def
        cell_div_def zero_next upd_map_drop)
qed

lemma assign_biases_loop:
  assumes "n \<le> length (heap s (biases (model_outer s)))" and "Suc i0 + n \<le> N"
    and "var_i s = Some i0"
    and "meta_gradient s = map (\<lambda>k. if k < Suc i0 then IntZero else Tens (g k)) [0..<N]"
    and "length (biases_grad s) = length (heap s (biases (model_outer s)))"
  shows "for_range (assign_bias_stmt cfg) [0..<n] s =
     Ok (s\<lparr>biases_grad := map (\<lambda>j. Some (sdiv (g (Suc i0 + j)) (tasks_per_metaupdate cfg))) [0..<n]
                               @ drop n (biases_grad s),
           meta_gradient := map (\<lambda>k. if k < Suc i0 + n then IntZero else Tens (g k)) [0..<N],
           var_j := (if n = 0 then var_j s else Some (n - 1))\<rparr>)"
  using assms(1,2)
proof (induction n)
  case 0
  then show ?case using assms(4) by simp
next
  case (Suc n)
  then show ?case
    using assms(3,5) zero_next[of "Suc i0 + n" N g]
    by (simp add: for_range_append assign_bias_stmt_def getitem_def bind_err_def assign_def
        load_local_def cell_div_def upd_map_drop)
qed

lemma meta_assign_ok:
  assumes nw: "heap s (weights (model_outer s)) \<noteq> []" and nb: "heap s (biases (model_outer s)) \<noteq> []"
    and mg: "meta_gradient s = map (\<lambda>k. Tens (g k))
       [0..<length (heap s (weights (model_outer s))) + length (heap s (biases (model_outer s))) + 1]"
  shows "\<exists>s'. meta_assign cfg s = Ok s'
     \<and> weights_grad s' = map (\<lambda>i. Some (sdiv (g i) (tasks_per_metaupdate cfg)))
                            [0..<length (heap s (weights (model_outer s)))]
     \<and> biases_grad s' = map (\<lambda>j. Some (sdiv (g (length (heap s (weights (model_outer s))) + j))
                                           (tasks_per_metaupdate cfg)))
                            [0..<length (heap s (biases (model_outer s)))]
     \<and> context_grad s' = Some (sdiv (g (length (heap s (weights (model_outer s)))
                                         + length (heap s (biases (model_outer s)))))
                                  (tasks_per_metaupdate cfg))
     \<and> same_outer s s'"
proof -
  let ?W = "heap s (weights (model_outer s))"
  let ?B = "heap s (biases (model_outer s))"
  let ?N = "length ?W + length ?B + 1"
  let ?T = "tasks_per_metaupdate cfg"
  obtain mw mb where w0: "length ?W = Suc mw" and b0: "length ?B = Suc mb"
    using nw nb by (cases ?W; cases ?B) auto
  let ?z = "zero_grad s"
  have z: "heap ?z = heap s" "model_outer ?z = model_outer s" "meta_gradient ?z = meta_gradient s"
    "length (weights_grad ?z) = length ?W" "length (biases_grad ?z) = length ?B"
    "leaf_data ?z = leaf_data s"
    by (simp_all add: zero_grad_def)
  define s1 where "s1 = ?z\<lparr>weights_grad := map (\<lambda>i. Some (sdiv (g i) ?T)) [0..<length ?W],
           meta_gradient := map (\<lambda>k. if k < length ?W then IntZero else Tens (g k)) [0..<?N],
           var_i := Some mw\<rparr>"
  have l1: "for_range (assign_weight_stmt cfg) [0..<length (heap ?z (weights (model_outer ?z)))] ?z = Ok s1"
    using assign_weights_loop[of "length ?W" ?z ?N g cfg] z mg
    by (simp add: s1_def w0)
  have p1: "heap s1 = heap s" "model_outer s1 = model_outer s" "var_i s1 = Some mw"
    "meta_gradient s1 = map (\<lambda>k. if k < Suc mw then IntZero else Tens (g k)) [0..<?N]"
    "length (biases_grad s1) = length ?B"
    by (simp_all add: s1_def z w0)
  define s2 where "s2 = s1\<lparr>biases_grad := map (\<lambda>j. Some (sdiv (g (Suc mw + j)) ?T)) [0..<length ?B],
           meta_gradient := map (\<lambda>k. if k < Suc mw + length ?B then IntZero else Tens (g k)) [0..<?N],
           var_j := Some mb\<rparr>"
  have l2: "for_range (assign_bias_stmt cfg) [0..<length (heap s1 (biases (model_outer s1)))] s1 = Ok s2"
    using assign_biases_loop[of "length ?B" s1 mw ?N g cfg] p1
    by (simp add: s2_def w0 b0)
  have p2: "var_i s2 = Some mw" "var_j s2 = Some mb"
    "meta_gradient s2 = map (\<lambda>k. if k < Suc mw + length ?B then IntZero else Tens (g k)) [0..<?N]"
    by (simp_all add: s2_def p1)
  have ix: "mw + mb + 2 = length ?W + length ?B" "mw + mb + 2 < ?N" "\<not> mw + mb + 2 < Suc mw + length ?B"
    by (simp_all add: w0 b0)
  define s3 where "s3 = s2\<lparr>context_grad := Some (sdiv (g (length ?W + length ?B)) ?T),
           meta_gradient := (meta_gradient s2)[length ?W + length ?B := IntZero]\<rparr>"
  have l3: "assign_context_stmt cfg s2 = Ok s3"
    unfolding assign_context_stmt_def
    using ix
    by (simp add: p2 load_local_def bind_err_def getitem_def assign_def cell_div_def s3_def
        del: upt_Suc)
  have "meta_assign cfg s = Ok s3"
    unfolding meta_assign_def Let_def
    by (simp only: l1 and_then_Ok l2 l3)
  moreover have "weights_grad s3 = map (\<lambda>i. Some (sdiv (g i) ?T)) [0..<length ?W]"
    "biases_grad s3 = map (\<lambda>j. Some (sdiv (g (length ?W + j)) ?T)) [0..<length ?B]"
    "context_grad s3 = Some (sdiv (g (length ?W + length ?B)) ?T)"
    "same_outer s s3"
    by (simp_all add: s3_def s2_def s1_def w0 same_outer_def zero_grad_def)
  ultimately show ?thesis by blast
qed

lemma accumulate_ok:
  fixes fwd :: forward and D :: autograd
  assumes al: "allocated s"
    and ok: "num_inner_updates cfg = 0
       \<or> (heap s (weights (model_outer s)) \<noteq> [] \<and> heap s (biases (model_outer s)) \<noteq> [])"
    and tasks: "\<And>t. t < tasks_per_metaupdate cfg \<Longrightarrow> getitem tfs t = Inr f \<and> tr t = x \<and> te t = x'"
  shows "\<exists>s'. accumulate cfg fwd D tfs tr te s = Ok s'
      \<and> same_outer s s'
      \<and> meta_gradient s' = map (\<lambda>k. if tasks_per_metaupdate cfg = 0 then IntZero
             else Tens (smul (real (tasks_per_metaupdate cfg))
                    (task_gradient cfg fwd D f x x' (init_meta_gradient (run_copy s)) k)))
           [0..<length (heap s (weights (model_outer s))) + length (heap s (biases (model_outer s))) + 1]"
proof -
  let ?s0 = "init_meta_gradient (run_copy s)"
  let ?T = "tasks_per_metaupdate cfg"
  have inv: "task_inv ?s0" by (rule task_inv_init[OF al])
  have so: "same_outer s ?s0"
    by (simp add: same_outer_def init_meta_gradient_def run_copy_def)
  have ok0: "num_inner_updates cfg = 0
       \<or> (heap ?s0 (weights (model_outer ?s0)) \<noteq> [] \<and> heap ?s0 (biases (model_outer ?s0)) \<noteq> [])"
    using ok so by (simp add: same_outer_def)
  have mg0: "meta_gradient ?s0 = map (\<lambda>_. IntZero)
      [0..<length (heap s (weights (model_outer s))) + length (heap s (biases (model_outer s))) + 1]"
    by (simp add: init_meta_gradient_def run_copy_def)
  from tasks_loop_ok[OF tasks inv ok0, of ?T fwd D] obtain s' where
    s': "for_range (task_body cfg fwd D tfs tr te) [0..<?T] ?s0 = Ok s'"
    "task_inv s'" "same_outer ?s0 s'"
    "meta_gradient s' = map (\<lambda>k. ((\<lambda>c. cell_add c (task_gradient cfg fwd D f x x' ?s0 k)) ^^ ?T)
                                       (meta_gradient ?s0 ! k))
                              [0..<length (meta_gradient ?s0)]"
    by blast
  have "meta_gradient s' = map (\<lambda>k. if ?T = 0 then IntZero else Tens (smul (real ?T)
             (task_gradient cfg fwd D f x x' ?s0 k)))
           [0..<length (heap s (weights (model_outer s))) + length (heap s (biases (model_outer s))) + 1]"
    unfolding s'(4) mg0
    by (simp add: cell_add_iterate del: upt_Suc cong: map_cong)
  with s'(1) same_outer_trans[OF so s'(3)] show ?thesis
    by (simp add: accumulate_def)
qed

lemma smul_one [simp]: "smul 1 g = g"
  by (induction g) (simp_all add: smul_def)

lemma sdiv_one [simp]: "sdiv g (Suc 0) = g"
  by (induction g) (simp_all add: sdiv_def)

lemma sdiv_smul: "0 < m \<Longrightarrow> sdiv (smul (real m) g) m = g"
  by (simp add: sdiv_def smul_def comp_def)

lemma task_gradient_no_adaptation:
  "num_inner_updates cfg = 0 \<Longrightarrow>
   task_gradient cfg fwd D f x x' (init_meta_gradient (run_copy s)) k
     = D (\<lambda>v. mse_loss (fwd (graph_values s (model_outer s) v) x') (f x')) (leaf_data s) k"
  by (simp add: task_gradient_def adapted_values_def graph_values_def init_meta_gradient_def
      run_copy_def)

text \<open>
  Claim C3. With no inner update and a single task, the accumulation phase (lines 83-147)
  succeeds from every state whose shared lists are allocated, and entry \<open>k\<close> of
  \<^verbatim>\<open>meta_gradient\<close> is component \<open>k\<close> of the gradient of the test loss
  \<^verbatim>\<open>F.mse_loss(model_outer(test_inputs), target_functions[0](test_inputs))\<close>, taken with respect to
  the leaves at their current data, that is with respect to the shared model's own tensors, in
  the order weights, biases, context. Dividing by \<^verbatim>\<open>tasks_per_metaupdate\<close> = 1 leaves each
  entry as it is, and when the model has a weight and a bias lines 151-162 store exactly these
  gradients in the \<^verbatim>\<open>.grad\<close> fields of the shared tensors.
\<close>

theorem meta_gradient_without_adaptation:
  fixes fwd :: forward and D :: autograd and s :: run_state and f :: "tensor \<Rightarrow> tensor"
    and te :: "nat \<Rightarrow> tensor"
  defines "G \<equiv> (\<lambda>k. D (\<lambda>v. mse_loss (fwd (graph_values s (model_outer s) v) (te 0)) (f (te 0)))
                     (leaf_data s) k)"
    and "nw \<equiv> length (heap s (weights (model_outer s)))"
    and "nb \<equiv> length (heap s (biases (model_outer s)))"
  assumes al: "allocated s" and K: "num_inner_updates cfg = 0" and T: "tasks_per_metaupdate cfg = 1"
  shows "\<exists>a. accumulate cfg fwd D [f] tr te s = Ok a
      \<and> meta_gradient a = map (\<lambda>k. Tens (G k)) [0..<nw + nb + 1]
      \<and> (\<forall>k<nw + nb + 1. cell_div (meta_gradient a ! k) (tasks_per_metaupdate cfg) = Inr (G k))
      \<and> (0 < nw \<and> 0 < nb \<longrightarrow>
           (\<exists>b. meta_assign cfg a = Ok b
              \<and> weights_grad b = map (\<lambda>i. Some (G i)) [0..<nw]
              \<and> biases_grad b = map (\<lambda>j. Some (G (nw + j))) [0..<nb]
              \<and> context_grad b = Some (G (nw + nb))))"
proof -
  have tasks: "\<And>t. t < tasks_per_metaupdate cfg \<Longrightarrow> getitem [f] t = Inr f \<and> tr t = tr 0 \<and> te t = te 0"
    by (simp add: T getitem_def)
  from accumulate_ok[OF al disjI1[OF K] tasks, of fwd D] obtain a where
    a: "accumulate cfg fwd D [f] tr te s = Ok a" "same_outer s a"
    "meta_gradient a = map (\<lambda>k. Tens (G k)) [0..<nw + nb + 1]"
    by (auto simp add: T task_gradient_no_adaptation[OF K] G_def nw_def nb_def simp del: upt_Suc)
  have d: "\<forall>k<nw + nb + 1. cell_div (meta_gradient a ! k) (tasks_per_metaupdate cfg) = Inr (G k)"
    by (simp add: a(3) T cell_div_def del: upt_Suc)
  have e: "\<exists>b. meta_assign cfg a = Ok b
              \<and> weights_grad b = map (\<lambda>i. Some (G i)) [0..<nw]
              \<and> biases_grad b = map (\<lambda>j. Some (G (nw + j))) [0..<nb]
              \<and> context_grad b = Some (G (nw + nb))" if "0 < nw \<and> 0 < nb"
  proof -
    have h: "heap a (weights (model_outer a)) = heap s (weights (model_outer s))"
      "heap a (biases (model_outer a)) = heap s (biases (model_outer s))"
      using a(2) by (simp_all add: same_outer_def)
    have ne: "heap a (weights (model_outer a)) \<noteq> []" "heap a (biases (model_outer a)) \<noteq> []"
      using that by (auto simp: h nw_def nb_def)
    have mg: "meta_gradient a = map (\<lambda>k. Tens (G k))
       [0..<length (heap a (weights (model_outer a))) + length (heap a (biases (model_outer a))) + 1]"
      by (simp only: a(3) h nw_def nb_def)
    from meta_assign_ok[OF ne mg, of cfg] show ?thesis
      by (auto simp add: T h nw_def nb_def)
  qed
  from a(1,3) d e show ?thesis by blast
qed

lemma descent_tasks:
  "descent (cfg\<lparr>tasks_per_metaupdate := m\<rparr>) fwd D f x s = descent cfg fwd D f x s"
  by (simp add: descent_def used_grad_def fun_eq_iff)

lemma task_gradient_tasks:
  "task_gradient (cfg\<lparr>tasks_per_metaupdate := m\<rparr>) fwd D f x x' s = task_gradient cfg fwd D f x x' s"
  by (simp add: task_gradient_def adapted_values_def descent_tasks fun_eq_iff cong: if_cong)

lemma for_range_raise_first:
  "raised (body k s) = Some e \<Longrightarrow> raised (for_range body (k # ks) s) = Some e"
  by (cases "body k s") simp_all

lemma accumulate_raise:
  fixes fwd :: forward and D :: autograd
  assumes al: "allocated s" and T: "0 < tasks_per_metaupdate cfg"
    and tf: "getitem tfs 0 = Inr f"
    and k: "num_inner_updates cfg \<noteq> 0"
    and vi: "var_i s = None" and vj: "var_j s = None"
    and em: "heap s (weights (model_outer s)) = [] \<or> heap s (biases (model_outer s)) = []"
  shows "raised (accumulate cfg fwd D tfs tr te s)
     = Some (UnboundLocalError (if heap s (weights (model_outer s)) = [] then ''i'' else ''j''))"
proof -
  let ?s0 = "init_meta_gradient (run_copy s)"
  have inv: "task_inv ?s0" by (rule task_inv_init[OF al])
  have h: "heap ?s0 (weights (model_outer ?s0)) = heap s (weights (model_outer s))"
    "heap ?s0 (biases (model_outer ?s0)) = heap s (biases (model_outer s))"
    "var_i ?s0 = None" "var_j ?s0 = None"
    using vi vj by (simp_all add: init_meta_gradient_def run_copy_def)
  obtain n where n: "num_inner_updates cfg = Suc n"
    using k by (cases "num_inner_updates cfg") simp_all
  have em0: "heap ?s0 (weights (model_outer ?s0)) = [] \<or> heap ?s0 (biases (model_outer ?s0)) = []"
    using em by (simp add: h)
  note r = task_body_raise[OF tf inv n h(3) h(4) em0, of fwd D tr te, unfolded h]
  have u: "[0..<tasks_per_metaupdate cfg] = 0 # [1..<tasks_per_metaupdate cfg]"
    using T by (simp add: upt_conv_Cons)
  show ?thesis
    unfolding accumulate_def u
    by (rule for_range_raise_first[where body = "task_body cfg fwd D tfs tr te" and k = 0, OF r])
qed

text \<open>
  Claim C7. On \<open>T \<ge> 1\<close> copies of one task with the same training and test inputs, the
  accumulation phase (lines 83-147) raises exactly when it raises on the single task; when it
  succeeds, every entry of the accumulator divided by \<open>T\<close> equals the corresponding entry of the
  accumulator of the single task divided by 1. It succeeds when there is no inner update or the
  model has a weight and a bias, and in the latter case lines 151-162 store the same
  \<^verbatim>\<open>.grad\<close> fields in both runs. Tensor entries are reals, so that the tolerance of the
  floating-point comparison is zero.
\<close>

theorem identical_tasks_average:
  fixes fwd :: forward and D :: autograd and s :: run_state and f :: "tensor \<Rightarrow> tensor"
    and x x' :: tensor and cfg :: config and T :: nat
  defines "AT \<equiv> accumulate (cfg\<lparr>tasks_per_metaupdate := T\<rparr>) fwd D (replicate T f) (\<lambda>t. x) (\<lambda>t. x') s"
    and "A1 \<equiv> accumulate (cfg\<lparr>tasks_per_metaupdate := 1\<rparr>) fwd D [f] (\<lambda>t. x) (\<lambda>t. x') s"
    and "nw \<equiv> length (heap s (weights (model_outer s)))"
    and "nb \<equiv> length (heap s (biases (model_outer s)))"
  assumes al: "allocated s" and T: "1 \<le> T"
    and first: "(var_i s = None \<and> var_j s = None) \<or> num_inner_updates cfg = 0 \<or> (0 < nw \<and> 0 < nb)"
  shows "raised AT = raised A1
    \<and> (raised A1 = None \<longrightarrow>
         length (meta_gradient (state_of AT)) = nw + nb + 1
         \<and> length (meta_gradient (state_of A1)) = nw + nb + 1
         \<and> (\<forall>k<nw + nb + 1. \<exists>g. cell_div (meta_gradient (state_of AT) ! k) T = Inr g
                               \<and> cell_div (meta_gradient (state_of A1) ! k) 1 = Inr g))
    \<and> (num_inner_updates cfg = 0 \<or> (0 < nw \<and> 0 < nb) \<longrightarrow> raised A1 = None)
    \<and> (0 < nw \<and> 0 < nb \<longrightarrow>
         (\<exists>bT b1. and_then AT (meta_assign (cfg\<lparr>tasks_per_metaupdate := T\<rparr>)) = Ok bT
            \<and> and_then A1 (meta_assign (cfg\<lparr>tasks_per_metaupdate := 1\<rparr>)) = Ok b1
            \<and> weights_grad bT = weights_grad b1
            \<and> biases_grad bT = biases_grad b1
            \<and> context_grad bT = context_grad b1))"
proof (cases "num_inner_updates cfg = 0 \<or> (0 < nw \<and> 0 < nb)")
  case True
  let ?cT = "cfg\<lparr>tasks_per_metaupdate := T\<rparr>"
  let ?c1 = "cfg\<lparr>tasks_per_metaupdate := 1\<rparr>"
  let ?G = "task_gradient cfg fwd D f x x' (init_meta_gradient (run_copy s))"
  have okT: "num_inner_updates ?cT = 0
       \<or> (heap s (weights (model_outer s)) \<noteq> [] \<and> heap s (biases (model_outer s)) \<noteq> [])"
    and ok1: "num_inner_updates ?c1 = 0
       \<or> (heap s (weights (model_outer s)) \<noteq> [] \<and> heap s (biases (model_outer s)) \<noteq> [])"
    using True by (auto simp: nw_def nb_def)
  have tT: "\<And>t. t < tasks_per_metaupdate ?cT \<Longrightarrow> getitem (replicate T f) t = Inr f \<and> x = x \<and> x' = x'"
    and t1: "\<And>t. t < tasks_per_metaupdate ?c1 \<Longrightarrow> getitem [f] t = Inr f \<and> x = x \<and> x' = x'"
    by (simp_all add: getitem_def)
  from accumulate_ok[OF al okT tT, where fwd = fwd and D = D] T obtain aT where
    aT: "AT = Ok aT" "same_outer s aT"
    "meta_gradient aT = map (\<lambda>k. Tens (smul (real T) (?G k))) [0..<nw + nb + 1]"
    by (auto simp add: AT_def task_gradient_tasks nw_def nb_def simp del: upt_Suc)
  from accumulate_ok[OF al ok1 t1, where fwd = fwd and D = D] obtain a1 where
    a1: "A1 = Ok a1" "same_outer s a1"
    "meta_gradient a1 = map (\<lambda>k. Tens (?G k)) [0..<nw + nb + 1]"
    by (auto simp add: A1_def task_gradient_tasks nw_def nb_def simp del: upt_Suc)
  have T0: "0 < T" using T by simp
  have r: "raised AT = raised A1" "raised A1 = None" by (simp_all add: aT a1)
  have l: "length (meta_gradient (state_of AT)) = nw + nb + 1"
    "length (meta_gradient (state_of A1)) = nw + nb + 1"
    by (simp_all add: aT a1)
  have d: "\<forall>k<nw + nb + 1. \<exists>g. cell_div (meta_gradient (state_of AT) ! k) T = Inr g
                               \<and> cell_div (meta_gradient (state_of A1) ! k) 1 = Inr g"
    using T0 by (simp add: aT a1 cell_div_def sdiv_smul del: upt_Suc)
  have e: "\<exists>bT b1. and_then AT (meta_assign ?cT) = Ok bT
            \<and> and_then A1 (meta_assign ?c1) = Ok b1
            \<and> weights_grad bT = weights_grad b1
            \<and> biases_grad bT = biases_grad b1
            \<and> context_grad bT = context_grad b1" if "0 < nw \<and> 0 < nb"
  proof -
    have hT: "heap aT (weights (model_outer aT)) = heap s (weights (model_outer s))"
      "heap aT (biases (model_outer aT)) = heap s (biases (model_outer s))"
      using aT(2) by (simp_all add: same_outer_def)
    have h1: "heap a1 (weights (model_outer a1)) = heap s (weights (model_outer s))"
      "heap a1 (biases (model_outer a1)) = heap s (biases (model_outer s))"
      using a1(2) by (simp_all add: same_outer_def)
    have neT: "heap aT (weights (model_outer aT)) \<noteq> []" "heap aT (biases (model_outer aT)) \<noteq> []"
      and ne1: "heap a1 (weights (model_outer a1)) \<noteq> []" "heap a1 (biases (model_outer a1)) \<noteq> []"
      using that by (auto simp: hT h1 nw_def nb_def)
    have mgT: "meta_gradient aT = map (\<lambda>k. Tens (smul (real T) (?G k)))
       [0..<length (heap aT (weights (model_outer aT))) + length (heap aT (biases (model_outer aT))) + 1]"
      by (simp only: aT(3) hT nw_def nb_def)
    have mg1: "meta_gradient a1 = map (\<lambda>k. Tens (?G k))
       [0..<length (heap a1 (weights (model_outer a1))) + length (heap a1 (biases (model_outer a1))) + 1]"
      by (simp only: a1(3) h1 nw_def nb_def)
    from meta_assign_ok[OF neT mgT, of ?cT] obtain bT where
      rT: "meta_assign ?cT aT = Ok bT"
      "weights_grad bT = map (\<lambda>i. Some (sdiv (smul (real T) (?G i)) (tasks_per_metaupdate ?cT)))
                            [0..<length (heap aT (weights (model_outer aT)))]"
      "biases_grad bT = map (\<lambda>j. Some (sdiv (smul (real T) (?G (length (heap aT (weights (model_outer aT))) + j)))
                                           (tasks_per_metaupdate ?cT)))
                            [0..<length (heap aT (biases (model_outer aT)))]"
      "context_grad bT = Some (sdiv (smul (real T) (?G (length (heap aT (weights (model_outer aT)))
                                         + length (heap aT (biases (model_outer aT))))))
                                  (tasks_per_metaupdate ?cT))"
      by blast
    have bT: "meta_assign ?cT aT = Ok bT"
      "weights_grad bT = map (\<lambda>i. Some (?G i)) [0..<nw]"
      "biases_grad bT = map (\<lambda>j. Some (?G (nw + j))) [0..<nb]"
      "context_grad bT = Some (?G (nw + nb))"
      using T0 by (simp_all add: rT hT nw_def nb_def sdiv_smul)
    from meta_assign_ok[OF ne1 mg1, of ?c1] obtain b1 where
      r1: "meta_assign ?c1 a1 = Ok b1"
      "weights_grad b1 = map (\<lambda>i. Some (sdiv (?G i) (tasks_per_metaupdate ?c1)))
                            [0..<length (heap a1 (weights (model_outer a1)))]"
      "biases_grad b1 = map (\<lambda>j. Some (sdiv (?G (length (heap a1 (weights (model_outer a1))) + j))
                                           (tasks_per_metaupdate ?c1)))
                            [0..<length (heap a1 (biases (model_outer a1)))]"
      "context_grad b1 = Some (sdiv (?G (length (heap a1 (weights (model_outer a1)))
                                         + length (heap a1 (biases (model_outer a1)))))
                                  (tasks_per_metaupdate ?c1))"
      by blast
    have b1: "meta_assign ?c1 a1 = Ok b1"
      "weights_grad b1 = map (\<lambda>i. Some (?G i)) [0..<nw]"
      "biases_grad b1 = map (\<lambda>j. Some (?G (nw + j))) [0..<nb]"
      "context_grad b1 = Some (?G (nw + nb))"
      using r1 by (simp_all add: h1 nw_def nb_def)
    show ?thesis
      using bT b1 by (simp add: aT(1) a1(1))
  qed
  from r l d e show ?thesis by blast
next
  case False
  then have k: "num_inner_updates cfg \<noteq> 0"
    and em: "heap s (weights (model_outer s)) = [] \<or> heap s (biases (model_outer s)) = []"
    by (auto simp: nw_def nb_def)
  from False first have v: "var_i s = None" "var_j s = None" by auto
  have T0: "0 < T" using T by simp
  have "raised AT = Some (UnboundLocalError (if heap s (weights (model_outer s)) = [] then ''i'' else ''j''))"
    unfolding AT_def
    by (rule accumulate_raise[OF al _ _ _ v em]) (simp_all add: T0 k getitem_def)
  moreover have "raised A1 = Some (UnboundLocalError (if heap s (weights (model_outer s)) = [] then ''i'' else ''j''))"
    unfolding A1_def
    by (rule accumulate_raise[OF al _ _ _ v em]) (simp_all add: k getitem_def)
  ultimately show ?thesis using False by auto
qed

lemma initial_state_facts:
  "heap (initial_state p) (weights (model_outer (initial_state p))) = map leaf [0..<length (weight_values p)]"
  "heap (initial_state p) (biases (model_outer (initial_state p)))
     = map (\<lambda>k. leaf (length (weight_values p) + k)) [0..<length (bias_values p)]"
  "leaf_data (initial_state p) = weight_values p @ bias_values p @ [context_value p]"
  "var_i (initial_state p) = None" "var_j (initial_state p) = None"
  "graph_values (initial_state p) (model_outer (initial_state p)) v
     = unflatten (length (weight_values p)) (length (bias_values p)) v"
  by (simp_all add: initial_state_def Let_def graph_values_def unflatten_def leaf_def comp_def)

theorem meta_gradient_without_adaptation_witness:
  "allocated (initial_state example_params)
   \<and> num_inner_updates (example_config 0 1) = 0 \<and> tasks_per_metaupdate (example_config 0 1) = 1
   \<and> (\<exists>a b. accumulate (example_config 0 1) linear_forward central_difference [double_task]
                (\<lambda>t. [2]) (\<lambda>t. [3]) (initial_state example_params) = Ok a
          \<and> meta_gradient a = [Tens [- 36], Tens [- 12], Tens []]
          \<and> meta_assign (example_config 0 1) a = Ok b
          \<and> weights_grad b = [Some [- 36]]
          \<and> biases_grad b = [Some [- 12]]
          \<and> context_grad b = Some [])"
proof -
  let ?s = "initial_state example_params"
  let ?cfg = "example_config 0 1"
  have al: "allocated ?s" by (rule allocated_initial)
  have K: "num_inner_updates ?cfg = 0" and T: "tasks_per_metaupdate ?cfg = 1"
    by (simp_all add: example_config_def)
  have n: "length (heap ?s (weights (model_outer ?s))) = 1" "length (heap ?s (biases (model_outer ?s))) = 1"
    by (simp_all add: initial_state_facts example_params_def)
  have G: "(\<lambda>k. central_difference
              (\<lambda>v. mse_loss (linear_forward (graph_values ?s (model_outer ?s) v) ((\<lambda>t. [3]) 0))
                     (double_task ((\<lambda>t. [3]) 0)))
              (leaf_data ?s) k)
      = (\<lambda>k. central_difference (\<lambda>v. mse_loss (linear_forward (unflatten 1 1 v) [3]) [6]) [[0], [0], []] k)"
    by (simp add: initial_state_facts example_params_def double_task_def)
  from meta_gradient_without_adaptation[OF al K T, of linear_forward central_difference double_task
      "\<lambda>t. [2]" "\<lambda>t. [3]", unfolded G n]
  obtain a where a: "accumulate ?cfg linear_forward central_difference [double_task]
                (\<lambda>t. [2]) (\<lambda>t. [3]) ?s = Ok a"
    "meta_gradient a = map (\<lambda>k. Tens (central_difference
        (\<lambda>v. mse_loss (linear_forward (unflatten 1 1 v) [3]) [6]) [[0], [0], []] k)) [0..<1 + 1 + 1]"
    "\<exists>b. meta_assign ?cfg a = Ok b
        \<and> weights_grad b = map (\<lambda>i. Some (central_difference
             (\<lambda>v. mse_loss (linear_forward (unflatten 1 1 v) [3]) [6]) [[0], [0], []] i)) [0..<1]
        \<and> biases_grad b = map (\<lambda>j. Some (central_difference
             (\<lambda>v. mse_loss (linear_forward (unflatten 1 1 v) [3]) [6]) [[0], [0], []] (1 + j))) [0..<1]
        \<and> context_grad b = Some (central_difference
             (\<lambda>v. mse_loss (linear_forward (unflatten 1 1 v) [3]) [6]) [[0], [0], []] (1 + 1))"
    by auto
  from a(3) obtain b where b: "meta_assign ?cfg a = Ok b"
    "weights_grad b = map (\<lambda>i. Some (central_difference
             (\<lambda>v. mse_loss (linear_forward (unflatten 1 1 v) [3]) [6]) [[0], [0], []] i)) [0..<1]"
    "biases_grad b = map (\<lambda>j. Some (central_difference
             (\<lambda>v. mse_loss (linear_forward (unflatten 1 1 v) [3]) [6]) [[0], [0], []] (1 + j))) [0..<1]"
    "context_grad b = Some (central_difference
             (\<lambda>v. mse_loss (linear_forward (unflatten 1 1 v) [3]) [6]) [[0], [0], []] (1 + 1))"
    by blast
  have v: "meta_gradient a = [Tens [- 36], Tens [- 12], Tens []]"
    "weights_grad b = [Some [- 36]]" "biases_grad b = [Some [- 12]]" "context_grad b = Some []"
    using central_difference_linear[of 3 6 0 0]
    by (simp_all add: a(2) b(2-4) numeral_2_eq_2 upt_rec)
  from al K T a(1) b(1) v show ?thesis by blast
qed

theorem identical_tasks_average_witness:
  "allocated (initial_state example_params) \<and> (1::nat) \<le> 3
   \<and> var_i (initial_state example_params) = None \<and> var_j (initial_state example_params) = None
   \<and> (\<exists>bT b1.
        and_then (accumulate ((example_config 1 5)\<lparr>tasks_per_metaupdate := 3\<rparr>) linear_forward central_difference
                    (replicate 3 double_task) (\<lambda>t. [2]) (\<lambda>t. [3]) (initial_state example_params))
          (meta_assign ((example_config 1 5)\<lparr>tasks_per_metaupdate := 3\<rparr>)) = Ok bT
        \<and> and_then (accumulate ((example_config 1 5)\<lparr>tasks_per_metaupdate := 1\<rparr>) linear_forward central_difference
                    [double_task] (\<lambda>t. [2]) (\<lambda>t. [3]) (initial_state example_params))
          (meta_assign ((example_config 1 5)\<lparr>tasks_per_metaupdate := 1\<rparr>)) = Ok b1
        \<and> weights_grad bT = weights_grad b1
        \<and> biases_grad bT = biases_grad b1
        \<and> context_grad bT = context_grad b1)"
proof -
  let ?s = "initial_state example_params"
  have al: "allocated ?s" by (rule allocated_initial)
  have T: "(1::nat) \<le> 3" by simp
  have v: "var_i ?s = None" "var_j ?s = None" by (simp_all add: initial_state_facts)
  have first: "(var_i ?s = None \<and> var_j ?s = None) \<or> num_inner_updates (example_config 1 5) = 0
      \<or> (0 < length (heap ?s (weights (model_outer ?s))) \<and> 0 < length (heap ?s (biases (model_outer ?s))))"
    using v by simp
  have n: "0 < length (heap ?s (weights (model_outer ?s))) \<and> 0 < length (heap ?s (biases (model_outer ?s)))"
    by (simp add: initial_state_facts example_params_def)
  from identical_tasks_average[OF al T first, of linear_forward central_difference double_task "[2]" "[3]"] n
  have "\<exists>bT b1.
        and_then (accumulate ((example_config 1 5)\<lparr>tasks_per_metaupdate := 3\<rparr>) linear_forward central_difference
                    (replicate 3 double_task) (\<lambda>t. [2]) (\<lambda>t. [3]) ?s)
          (meta_assign ((example_config 1 5)\<lparr>tasks_per_metaupdate := 3\<rparr>)) = Ok bT
        \<and> and_then (accumulate ((example_config 1 5)\<lparr>tasks_per_metaupdate := 1\<rparr>) linear_forward central_difference
                    [double_task] (\<lambda>t. [2]) (\<lambda>t. [3]) ?s)
          (meta_assign ((example_config 1 5)\<lparr>tasks_per_metaupdate := 1\<rparr>)) = Ok b1
        \<and> weights_grad bT = weights_grad b1
        \<and> biases_grad bT = biases_grad b1
        \<and> context_grad bT = context_grad b1"
    by blast
  with al T v show ?thesis by blast
qed

















end
